theory Spec2Isabelle
  imports Main "HOL-Library.Word"
begin

section \<open>JavaScript strings\<close>

text \<open>
  A JavaScript string is a sequence of 16-bit code units; \<open>length\<close>, \<open>indexOf\<close>,
  \<open>substring\<close> and the regular expressions of the source (none has the \<open>u\<close> flag)
  all count code units. \<open>js\<close> embeds an ASCII literal.
\<close>

type_synonym code_unit = "16 word"
type_synonym jsstring = "code_unit list"

definition js :: "string \<Rightarrow> jsstring" where
  "js s = map of_char s"

text \<open>\<open>String.prototype.startsWith\<close> and \<open>endsWith\<close>.\<close>

fun startsWith :: "jsstring \<Rightarrow> jsstring \<Rightarrow> bool" where
  "startsWith s [] = True"
| "startsWith [] (p # ps) = False"
| "startsWith (c # cs) (p # ps) = (c = p \<and> startsWith cs ps)"

definition endsWith :: "jsstring \<Rightarrow> jsstring \<Rightarrow> bool" where
  "endsWith s p = startsWith (rev s) (rev p)"

text \<open>
  \<open>String.prototype.indexOf\<close>: the index of the first occurrence, \<open>None\<close> where
  JavaScript returns \<open>-1\<close>.
\<close>

fun indexOf :: "jsstring \<Rightarrow> jsstring \<Rightarrow> nat option" where
  "indexOf [] t = (if t = [] then Some 0 else None)"
| "indexOf (c # cs) t =
     (if startsWith (c # cs) t then Some 0 else map_option Suc (indexOf cs t))"

text \<open>
  \<open>String.prototype.trim\<close> removes WhiteSpace and LineTerminator code units from both
  ends: TAB, LF, VT, FF, CR, SP, NBSP, the Unicode space separators, LS, PS and the BOM.
  The class \<open>\s\<close> of a regular expression is the same set.
\<close>

definition is_space :: "code_unit \<Rightarrow> bool" where
  "is_space c \<longleftrightarrow>
     c = 0x09 \<or> c = 0x0A \<or> c = 0x0B \<or> c = 0x0C \<or> c = 0x0D \<or> c = 0x20 \<or> c = 0xA0 \<or>
     c = 0x1680 \<or> (0x2000 \<le> c \<and> c \<le> 0x200A) \<or> c = 0x2028 \<or> c = 0x2029 \<or>
     c = 0x202F \<or> c = 0x205F \<or> c = 0x3000 \<or> c = 0xFEFF"

definition trim :: "jsstring \<Rightarrow> jsstring" where
  "trim s = rev (dropWhile is_space (rev (dropWhile is_space s)))"

text \<open>
  \<open>String.prototype.split\<close>: the pieces between the non-overlapping occurrences of
  the separator, found from left to right; with the empty separator, the code units.
\<close>

function split_from :: "jsstring \<Rightarrow> jsstring \<Rightarrow> jsstring \<Rightarrow> jsstring list" where
  "split_from sep acc [] = [rev acc]"
| "split_from sep acc (c # cs) =
     (if sep \<noteq> [] \<and> startsWith (c # cs) sep
      then rev acc # split_from sep [] (drop (length sep) (c # cs))
      else split_from sep (c # acc) cs)"
  by pat_completeness auto
termination
  by (relation "measure (\<lambda>(sep, acc, s). length s)") auto

definition split :: "jsstring \<Rightarrow> jsstring \<Rightarrow> jsstring list" where
  "split s sep = (if sep = [] then map (\<lambda>c. [c]) s else split_from sep [] s)"

text \<open>\<open>Array.prototype.join\<close> on an array of strings.\<close>

fun join :: "jsstring \<Rightarrow> jsstring list \<Rightarrow> jsstring" where
  "join sep [] = []"
| "join sep [x] = x"
| "join sep (x # y # ys) = x @ sep @ join sep (y # ys)"

section \<open>Regular expressions of the source\<close>

text \<open>
  A regular expression is modelled by its anchored matcher: given the rest of the input
  from some position, the length of the match starting there (the one the backtracking
  matcher of the standard finds first), or \<open>None\<close>. \<open>replace_first\<close> is
  \<open>String.prototype.replace\<close> with a pattern without the \<open>g\<close> flag and the
  replacement \<open>''\<close>: the leftmost match is removed. No pattern of the source
  matches the empty string, so no match starts at the end of the input.
\<close>

type_synonym matcher = "jsstring \<Rightarrow> nat option"

fun replace_first :: "matcher \<Rightarrow> jsstring \<Rightarrow> jsstring" where
  "replace_first m [] = []"
| "replace_first m (c # cs) =
     (case m (c # cs) of
        Some n \<Rightarrow> drop n (c # cs)
      | None \<Rightarrow> c # replace_first m cs)"

text \<open>\<open>search m s\<close> is the position of the leftmost match, if there is one.\<close>

fun search :: "matcher \<Rightarrow> jsstring \<Rightarrow> nat option" where
  "search m [] = None"
| "search m (c # cs) =
     (case m (c # cs) of
        Some n \<Rightarrow> Some 0
      | None \<Rightarrow> map_option Suc (search m cs))"

text \<open>
  Case-insensitive comparison under the \<open>i\<close> flag, for a pattern of ASCII characters:
  a code unit matches an ASCII letter of the pattern when it is that letter in either
  case (the standard's Canonicalize never maps a code unit above 127 to one below 128).
\<close>

definition canonicalize :: "code_unit \<Rightarrow> code_unit" where
  "canonicalize c = (if 0x61 \<le> c \<and> c \<le> 0x7A then c - 0x20 else c)"

fun startsWith_ci :: "jsstring \<Rightarrow> jsstring \<Rightarrow> bool" where
  "startsWith_ci s [] = True"
| "startsWith_ci [] (p # ps) = False"
| "startsWith_ci (c # cs) (p # ps) =
     (canonicalize c = canonicalize p \<and> startsWith_ci cs ps)"

text \<open>
  The four patterns of \<open>parseAiOutput\<close>:
  \<^verbatim>\<open>/```json\n?/\<close>, \<^verbatim>\<open>/```\n?$/\<close>, \<^verbatim>\<open>/<script.*?>/is\<close> and \<^verbatim>\<open>/<\/script>/is\<close>.
  The second is anchored at the end of the input (no \<open>m\<close> flag): it matches at a
  position exactly when the rest is the fence, with or without one line feed. In the
  third the lazy \<open>.*?\<close> (with the \<open>s\<close> flag the dot matches every code unit) stops at
  the first \<open>>\<close>.
\<close>

definition re_fence_open :: matcher where
  "re_fence_open s =
     (if startsWith s (js ''```json'')
      then Some (if startsWith (drop 7 s) [0x0A] then 8 else 7)
      else None)"

definition re_fence_close :: matcher where
  "re_fence_close s =
     (if s = js ''```'' @ [0x0A] then Some 4
      else if s = js ''```'' then Some 3
      else None)"

definition re_script_open :: matcher where
  "re_script_open s =
     (if startsWith_ci s (js ''<script'')
      then (case indexOf (drop 7 s) (js ''>'') of
              Some k \<Rightarrow> Some (7 + k + 1)
            | None \<Rightarrow> None)
      else None)"

definition re_script_close :: matcher where
  "re_script_close s =
     (if startsWith_ci s (js ''</script>'') then Some 9 else None)"

section \<open>JSON values and \<open>JSON.parse\<close>\<close>

text \<open>
  \<open>JSON.parse\<close> is a function of the JavaScript engine, specified by ECMA-262 (the
  grammar is that of ECMA-404). It is modelled here in two passes: a lexer from code
  units to tokens, and a pushdown automaton from tokens to a value.

  A number is kept as its exact decimal value \<open>m * 10 ^ e\<close>; the engine rounds it to
  the nearest double, which matters to the source only through truthiness (below).
  The members of an object are kept in the order of first insertion, a repeated key
  overwriting the earlier value in place. (An engine enumerates integer-like keys
  first; no function modelled here enumerates a parsed object.)
\<close>

datatype json =
    JNull
  | JBool bool
  | JNum int int
  | JStr jsstring
  | JArr "json list"
  | JObj "(jsstring \<times> json) list"

datatype token =
    TLBrace | TRBrace | TLBrack | TRBrack | TColon | TComma
  | TVal json

definition is_json_ws :: "code_unit \<Rightarrow> bool" where
  "is_json_ws c \<longleftrightarrow> c = 0x20 \<or> c = 0x09 \<or> c = 0x0A \<or> c = 0x0D"

definition is_digit :: "code_unit \<Rightarrow> bool" where
  "is_digit c \<longleftrightarrow> 0x30 \<le> c \<and> c \<le> 0x39"

definition hex_val :: "code_unit \<Rightarrow> nat option" where
  "hex_val c =
     (if 0x30 \<le> c \<and> c \<le> 0x39 then Some (unat c - 0x30)
      else if 0x41 \<le> c \<and> c \<le> 0x46 then Some (unat c - 0x41 + 10)
      else if 0x61 \<le> c \<and> c \<le> 0x66 then Some (unat c - 0x61 + 10)
      else None)"

text \<open>The four hexadecimal digits of a \<open>\uXXXX\<close> escape.\<close>

definition unhex4 :: "code_unit \<Rightarrow> code_unit \<Rightarrow> code_unit \<Rightarrow> code_unit \<Rightarrow> code_unit option" where
  "unhex4 a b c d =
     (case (hex_val a, hex_val b, hex_val c, hex_val d) of
        (Some x, Some y, Some z, Some w) \<Rightarrow> Some (of_nat (4096 * x + 256 * y + 16 * z + w))
      | _ \<Rightarrow> None)"

text \<open>The single-character escapes: \<open>\" \\ \/ \b \f \n \r \t\<close>.\<close>

definition unescape :: "code_unit \<Rightarrow> code_unit option" where
  "unescape e =
     (if e = 0x22 then Some 0x22
      else if e = 0x5C then Some 0x5C
      else if e = 0x2F then Some 0x2F
      else if e = 0x62 then Some 0x08
      else if e = 0x66 then Some 0x0C
      else if e = 0x6E then Some 0x0A
      else if e = 0x72 then Some 0x0D
      else if e = 0x74 then Some 0x09
      else None)"

text \<open>
  \<open>lex_string\<close> reads a string literal after its opening quote: the decoded string
  and the input after the closing quote. A code unit below \<open>0x20\<close> may not stand
  unescaped in a string.
\<close>

fun lex_string :: "jsstring \<Rightarrow> (jsstring \<times> jsstring) option" where
  "lex_string [] = None"
| "lex_string (c # cs) =
     (if c = 0x22 then Some ([], cs)
      else if c = 0x5C then
        (case cs of
           [] \<Rightarrow> None
         | e # cs1 \<Rightarrow>
             if e = 0x75 then
               (case cs1 of
                  h1 # h2 # h3 # h4 # cs2 \<Rightarrow>
                    (case unhex4 h1 h2 h3 h4 of
                       None \<Rightarrow> None
                     | Some u \<Rightarrow> map_option (\<lambda>(s, r). (u # s, r)) (lex_string cs2))
                | _ \<Rightarrow> None)
             else
               (case unescape e of
                  None \<Rightarrow> None
                | Some u \<Rightarrow> map_option (\<lambda>(s, r). (u # s, r)) (lex_string cs1)))
      else if c < 0x20 then None
      else map_option (\<lambda>(s, r). (c # s, r)) (lex_string cs))"

text \<open>
  Numbers: \<open>-? (0 | [1-9][0-9]*) (. [0-9]+)? ([eE] [+-]? [0-9]+)?\<close>. A leading zero
  ends the integer part, so that \<open>01\<close> is the number \<open>0\<close> followed by a second value
  (which the automaton refuses).
\<close>

definition digits_val :: "jsstring \<Rightarrow> nat" where
  "digits_val ds = foldl (\<lambda>n d. 10 * n + (unat d - 0x30)) 0 ds"

definition lex_int :: "jsstring \<Rightarrow> (jsstring \<times> jsstring) option" where
  "lex_int s =
     (case s of
        [] \<Rightarrow> None
      | d # ds \<Rightarrow>
          if d = 0x30 then Some ([d], ds)
          else if is_digit d then Some (takeWhile is_digit s, dropWhile is_digit s)
          else None)"

definition lex_frac :: "jsstring \<Rightarrow> (jsstring \<times> jsstring) option" where
  "lex_frac s =
     (case s of
        [] \<Rightarrow> Some ([], [])
      | c # cs \<Rightarrow>
          if c = 0x2E then
            (if takeWhile is_digit cs = [] then None
             else Some (takeWhile is_digit cs, dropWhile is_digit cs))
          else Some ([], s))"

definition lex_exp :: "jsstring \<Rightarrow> (int \<times> jsstring) option" where
  "lex_exp s =
     (case s of
        [] \<Rightarrow> Some (0, [])
      | c # cs \<Rightarrow>
          if c = 0x65 \<or> c = 0x45 then
            (let neg = (case cs of [] \<Rightarrow> False | g # _ \<Rightarrow> g = 0x2D);
                 ds = (case cs of [] \<Rightarrow> [] | g # gs \<Rightarrow> if g = 0x2B \<or> g = 0x2D then gs else cs)
             in if takeWhile is_digit ds = [] then None
                else Some ((if neg then - int (digits_val (takeWhile is_digit ds))
                            else int (digits_val (takeWhile is_digit ds))),
                           dropWhile is_digit ds))
          else Some (0, s))"

definition lex_number :: "jsstring \<Rightarrow> (json \<times> jsstring) option" where
  "lex_number s =
     (let neg = (case s of [] \<Rightarrow> False | c # _ \<Rightarrow> c = 0x2D);
          s1 = (if neg then tl s else s)
      in case lex_int s1 of
           None \<Rightarrow> None
         | Some (ip, s2) \<Rightarrow>
             (case lex_frac s2 of
                None \<Rightarrow> None
              | Some (fp, s3) \<Rightarrow>
                  (case lex_exp s3 of
                     None \<Rightarrow> None
                   | Some (ex, s4) \<Rightarrow>
                       Some (JNum ((if neg then - 1 else 1) * int (digits_val (ip @ fp)))
                                  (ex - int (length fp)),
                             s4))))"

lemma lex_string_shorter: "lex_string s = Some (x, r) \<Longrightarrow> length r < length s"
proof (induction s arbitrary: x r rule: lex_string.induct)
  case 1
  then show ?case by simp
next
  case (2 c cs)
  then show ?case
    by (fastforce split: if_splits list.splits option.splits)
qed

lemma lex_int_shorter: "lex_int s = Some (x, r) \<Longrightarrow> length r < length s"
  by (auto simp: lex_int_def is_digit_def split: list.splits if_splits
      intro: le_less_trans [OF length_dropWhile_le])

lemma lex_frac_shorter: "lex_frac s = Some (x, r) \<Longrightarrow> length r \<le> length s"
  by (auto simp: lex_frac_def split: list.splits if_splits
      intro: le_trans [OF length_dropWhile_le])

lemma lex_exp_shorter: "lex_exp s = Some (x, r) \<Longrightarrow> length r \<le> length s"
  by (auto simp: lex_exp_def Let_def split: list.splits if_splits
      intro: le_trans [OF length_dropWhile_le])

lemma lex_number_shorter:
  assumes "lex_number s = Some (v, r)"
  shows "length r < length s"
proof -
  define s1 where "s1 = (if (case s of [] \<Rightarrow> False | c # _ \<Rightarrow> c = 0x2D) then tl s else s)"
  from assms obtain ip s2 fp s3 ex where
    a: "lex_int s1 = Some (ip, s2)" and b: "lex_frac s2 = Some (fp, s3)"
    and c: "lex_exp s3 = Some (ex, r)"
    by (auto simp: lex_number_def Let_def s1_def split: option.splits)
  have "length s1 \<le> length s" by (simp add: s1_def)
  with lex_int_shorter [OF a] lex_frac_shorter [OF b] lex_exp_shorter [OF c]
  show ?thesis by simp
qed

text \<open>
  The lexer. White space between tokens is SP, TAB, LF and CR only. A string, a number
  and the literals \<open>true\<close>, \<open>false\<close>, \<open>null\<close> become value tokens.
\<close>

definition emit :: "token \<Rightarrow> token list option \<Rightarrow> token list option" where
  "emit t r = map_option ((#) t) r"

function tokenize :: "jsstring \<Rightarrow> token list option" where
  "tokenize [] = Some []"
| "tokenize (c # cs) =
     (if is_json_ws c then tokenize cs
      else if c = 0x7B then emit TLBrace (tokenize cs)
      else if c = 0x7D then emit TRBrace (tokenize cs)
      else if c = 0x5B then emit TLBrack (tokenize cs)
      else if c = 0x5D then emit TRBrack (tokenize cs)
      else if c = 0x3A then emit TColon (tokenize cs)
      else if c = 0x2C then emit TComma (tokenize cs)
      else if c = 0x22 then
        (case lex_string cs of
           None \<Rightarrow> None
         | Some (s, r) \<Rightarrow> emit (TVal (JStr s)) (tokenize r))
      else if c = 0x2D \<or> is_digit c then
        (case lex_number (c # cs) of
           None \<Rightarrow> None
         | Some (v, r) \<Rightarrow> emit (TVal v) (tokenize r))
      else if startsWith (c # cs) (js ''true'') then emit (TVal (JBool True)) (tokenize (drop 3 cs))
      else if startsWith (c # cs) (js ''false'') then emit (TVal (JBool False)) (tokenize (drop 4 cs))
      else if startsWith (c # cs) (js ''null'') then emit (TVal JNull) (tokenize (drop 3 cs))
      else None)"
  by pat_completeness auto
termination
proof (relation "measure length")
qed (auto dest: lex_string_shorter lex_number_shorter)

text \<open>
  The automaton. A frame is a container under construction: an array with its elements
  so far, an object with its members so far, or an object whose next key has been read
  and awaits its value. The mode says what may come next.
\<close>

datatype frame =
    FArr "json list"
  | FObj "(jsstring \<times> json) list"
  | FKey "(jsstring \<times> json) list" jsstring

datatype mode =
    MValue            \<comment> \<open>a value must follow\<close>
  | MFirst            \<comment> \<open>just after an opening bracket: a first item or the closing bracket\<close>
  | MKey              \<comment> \<open>after a comma in an object: a key must follow\<close>
  | MColon            \<comment> \<open>after a key\<close>
  | MAfter            \<comment> \<open>after an item: a comma or the closing bracket\<close>
  | MDone json        \<comment> \<open>the top-level value is complete\<close>

text \<open>Storing a member: a repeated key keeps its place and takes the new value.\<close>

fun obj_put :: "(jsstring \<times> json) list \<Rightarrow> jsstring \<Rightarrow> json \<Rightarrow> (jsstring \<times> json) list" where
  "obj_put [] k v = [(k, v)]"
| "obj_put ((k', v') # kvs) k v =
     (if k' = k then (k, v) # kvs else (k', v') # obj_put kvs k v)"

text \<open>A completed value goes to the enclosing container, or ends the parse.\<close>

fun deliver :: "json \<Rightarrow> frame list \<Rightarrow> (mode \<times> frame list) option" where
  "deliver v [] = Some (MDone v, [])"
| "deliver v (FArr xs # st) = Some (MAfter, FArr (xs @ [v]) # st)"
| "deliver v (FKey kvs k # st) = Some (MAfter, FObj (obj_put kvs k v) # st)"
| "deliver v (FObj kvs # st) = None"

text \<open>Where a value may start: a scalar, or an opening bracket.\<close>

definition begin_value :: "token \<Rightarrow> frame list \<Rightarrow> (mode \<times> frame list) option" where
  "begin_value t st =
     (case t of
        TVal v \<Rightarrow> deliver v st
      | TLBrack \<Rightarrow> Some (MFirst, FArr [] # st)
      | TLBrace \<Rightarrow> Some (MFirst, FObj [] # st)
      | _ \<Rightarrow> None)"

text \<open>Where a key must stand: a string.\<close>

definition begin_key ::
  "token \<Rightarrow> (jsstring \<times> json) list \<Rightarrow> frame list \<Rightarrow> (mode \<times> frame list) option" where
  "begin_key t kvs st =
     (case t of
        TVal (JStr k) \<Rightarrow> Some (MColon, FKey kvs k # st)
      | _ \<Rightarrow> None)"

fun step :: "mode \<times> frame list \<Rightarrow> token \<Rightarrow> (mode \<times> frame list) option" where
  "step (MValue, st) t = begin_value t st"
| "step (MFirst, st) t =
     (case st of
        FArr xs # st' \<Rightarrow> if t = TRBrack then deliver (JArr xs) st' else begin_value t st
      | FObj kvs # st' \<Rightarrow> if t = TRBrace then deliver (JObj kvs) st' else begin_key t kvs st'
      | _ \<Rightarrow> None)"
| "step (MKey, st) t =
     (case st of
        FObj kvs # st' \<Rightarrow> begin_key t kvs st'
      | _ \<Rightarrow> None)"
| "step (MColon, st) t = (if t = TColon then Some (MValue, st) else None)"
| "step (MAfter, st) t =
     (case st of
        FArr xs # st' \<Rightarrow>
          if t = TComma then Some (MValue, st)
          else if t = TRBrack then deliver (JArr xs) st'
          else None
      | FObj kvs # st' \<Rightarrow>
          if t = TComma then Some (MKey, st)
          else if t = TRBrace then deliver (JObj kvs) st'
          else None
      | _ \<Rightarrow> None)"
| "step (MDone v, st) t = None"

fun run :: "mode \<times> frame list \<Rightarrow> token list \<Rightarrow> (mode \<times> frame list) option" where
  "run cfg [] = Some cfg"
| "run cfg (t # ts) = (case step cfg t of None \<Rightarrow> None | Some cfg' \<Rightarrow> run cfg' ts)"

text \<open>
  \<open>JSON_parse\<close> is \<open>None\<close> where \<open>JSON.parse\<close> throws a SyntaxError (the only error
  it throws on a string argument).
\<close>

definition JSON_parse :: "jsstring \<Rightarrow> json option" where
  "JSON_parse text =
     (case tokenize text of
        None \<Rightarrow> None
      | Some ts \<Rightarrow>
          (case run (MValue, []) ts of
             Some (MDone v, []) \<Rightarrow> Some v
           | _ \<Rightarrow> None))"

section \<open>Values at run time\<close>

text \<open>
  Truthiness (ToBoolean). A number is falsy when it is zero as a double: the literal
  \<open>m * 10 ^ e\<close> rounds to zero exactly when it is at most \<open>2 ^ -1075\<close> in absolute
  value, half of the least positive double (the tie goes to the even neighbour, zero).
\<close>

definition rounds_to_zero :: "int \<Rightarrow> int \<Rightarrow> bool" where
  "rounds_to_zero m e \<longleftrightarrow> m = 0 \<or> (e < 0 \<and> \<bar>m\<bar> * 2 ^ 1075 \<le> 10 ^ nat (- e))"

fun truthy :: "json \<Rightarrow> bool" where
  "truthy JNull = False"
| "truthy (JBool b) = b"
| "truthy (JNum m e) = (\<not> rounds_to_zero m e)"
| "truthy (JStr s) = (s \<noteq> [])"
| "truthy (JArr xs) = True"
| "truthy (JObj kvs) = True"

text \<open>
  Reading a property \<open>v.k\<close> of a value other than \<open>null\<close>, for the names the source
  reads (\<open>title\<close>, \<open>description\<close>, \<open>how_to_play\<close>, \<open>rejection\<close>, \<open>reason\<close>), none
  of which a built-in prototype defines: the member of an object, \<open>undefined\<close>
  (\<open>None\<close>) otherwise. Reading a property of \<open>null\<close> throws a TypeError, which the
  callers below write out.
\<close>

fun get_prop :: "json \<Rightarrow> jsstring \<Rightarrow> json option" where
  "get_prop (JObj kvs) k = map_of kvs k"
| "get_prop _ k = None"

definition truthy_prop :: "json \<Rightarrow> jsstring \<Rightarrow> bool" where
  "truthy_prop v k = (case get_prop v k of None \<Rightarrow> False | Some x \<Rightarrow> truthy x)"

definition isArray :: "json option \<Rightarrow> bool" where
  "isArray v = (case v of Some (JArr xs) \<Rightarrow> True | _ \<Rightarrow> False)"

datatype js_error = TypeError

text \<open>
  What the engine decides and the standard leaves open, or computes in floating point:
  the message of the SyntaxError that \<open>JSON.parse\<close> throws on a text, the message of
  the TypeError for reading \<open>title\<close> of \<open>null\<close>, and the decimal notation of a number
  (Number::toString). The functions below take the engine as a parameter.
\<close>

record engine =
  syntax_error_message :: "jsstring \<Rightarrow> jsstring"
  type_error_message :: jsstring
  number_to_string :: "int \<Rightarrow> int \<Rightarrow> jsstring"

text \<open>ToString, as a template literal applies it to an interpolated value.\<close>

fun ToString :: "engine \<Rightarrow> json \<Rightarrow> jsstring" where
  "ToString E JNull = js ''null''"
| "ToString E (JBool b) = (if b then js ''true'' else js ''false'')"
| "ToString E (JNum m e) = number_to_string E m e"
| "ToString E (JStr s) = s"
| "ToString E (JArr xs) =
     join (js '','') (map (\<lambda>x. if x = JNull then [] else ToString E x) xs)"
| "ToString E (JObj kvs) = js ''[object Object]''"

section \<open>\<open>parseAiOutput\<close>\<close>

record ParseResult =
  gameData :: "json option"
  gameScript :: "jsstring option"
  error :: "jsstring option"

definition codeSeparator :: jsstring where
  "codeSeparator = js ''%%BEGINCODE%%''"

definition endSeparator :: jsstring where
  "endSeparator = js ''%%ENDCODE%%''"

definition failure :: "jsstring \<Rightarrow> ParseResult" where
  "failure msg = \<lparr>gameData = None, gameScript = None, error = Some msg\<rparr>"

definition separator_not_found :: jsstring where
  "separator_not_found = js ''Parsing Error: '' @ [0x27] @ js ''%%BEGINCODE%%'' @ [0x27] @ js '' separator not found.''"

definition missing_fields :: jsstring where
  "missing_fields = js ''Parsing Error: The AI response is missing one or more required fields: title, description, how_to_play (must be an array).''"

text \<open>
  The source's \<open>cleanedJsonString\<close>: the preamble without a leading \<^verbatim>\<open>```json\<close>
  fence and a trailing \<^verbatim>\<open>```\<close> fence, trimmed.
\<close>

definition cleanedJsonString :: "jsstring \<Rightarrow> jsstring" where
  "cleanedJsonString jsonString =
     trim (replace_first re_fence_close (replace_first re_fence_open jsonString))"

text \<open>
  The validation of the required fields:
  \<^verbatim>\<open>!gameData.title || !gameData.description || !gameData.how_to_play || !Array.isArray(gameData.how_to_play)\<close>
  is the negation of \<open>has_required_fields\<close>, for a value other than \<open>null\<close>.
\<close>

definition has_required_fields :: "json \<Rightarrow> bool" where
  "has_required_fields data \<longleftrightarrow>
     truthy_prop data (js ''title'') \<and>
     truthy_prop data (js ''description'') \<and>
     truthy_prop data (js ''how_to_play'') \<and>
     isArray (get_prop data (js ''how_to_play''))"

text \<open>
  The script: the text after the begin marker, cut at the first end marker if there is
  one, without the first opening and the first closing script tag, trimmed.
\<close>

definition scriptString :: "jsstring \<Rightarrow> nat \<Rightarrow> jsstring" where
  "scriptString rawInput separatorIndex =
     (let scriptStartIndex = separatorIndex + length codeSeparator;
          s = drop scriptStartIndex rawInput;
          s' = (case indexOf s endSeparator of
                  Some endSeparatorIndex \<Rightarrow> take endSeparatorIndex s
                | None \<Rightarrow> s)
      in trim (replace_first re_script_close (replace_first re_script_open s')))"

text \<open>
  The result is \<open>Inl TypeError\<close> where the function throws: the preamble parses to
  \<open>null\<close> and the validation reads \<open>gameData.title\<close> outside the \<open>try\<close> block. The
  parsed value is returned as it is: the type \<open>GameData\<close> of the source is not checked
  at run time beyond the validation written here.
\<close>

definition parseAiOutput :: "engine \<Rightarrow> jsstring \<Rightarrow> js_error + ParseResult" where
  "parseAiOutput E rawInput =
     (if trim rawInput = [] then
        Inr \<lparr>gameData = None, gameScript = None, error = None\<rparr>
      else
        case indexOf rawInput codeSeparator of
          None \<Rightarrow> Inr (failure separator_not_found)
        | Some separatorIndex \<Rightarrow>
            (case JSON_parse (cleanedJsonString (take separatorIndex rawInput)) of
               None \<Rightarrow>
                 Inr (failure (js ''JSON Parsing Error: '' @
                        syntax_error_message E (cleanedJsonString (take separatorIndex rawInput))))
             | Some data \<Rightarrow>
                 if data = JNull then Inl TypeError
                 else if \<not> has_required_fields data then Inr (failure missing_fields)
                 else Inr \<lparr>gameData = Some data,
                           gameScript = Some (scriptString rawInput separatorIndex),
                           error = None\<rparr>))"

section \<open>The generation and import flows\<close>

text \<open>
  The part of the component state that the two flows write. Both are modelled from the
  point where the text is at hand (the model's reply, the file's content) up to the
  call of \<open>analyzeGameScript\<close>, which talks to the model again.
\<close>

record ui_state =
  ui_error :: "jsstring option"
  ui_gameData :: "json option"
  ui_gameScript :: "jsstring option"
  apiKeySelected :: bool

definition cleared :: "ui_state \<Rightarrow> ui_state" where
  "cleared st = st\<lparr>ui_error := None, ui_gameData := None, ui_gameScript := None\<rparr>"

definition invalid_key_message :: jsstring where
  "invalid_key_message = js ''Your API key appears to be invalid or missing necessary permissions. Please select a valid API key and ensure billing is enabled for your project.''"

definition handleApiKeyError :: "jsstring \<Rightarrow> jsstring \<Rightarrow> ui_state \<Rightarrow> ui_state" where
  "handleApiKeyError message ctx st =
     (if message \<noteq> [] \<and> indexOf message (js ''Requested entity was not found'') \<noteq> None
      then st\<lparr>ui_error := Some invalid_key_message, apiKeySelected := False\<rparr>
      else st\<lparr>ui_error := Some (ctx @ js '': '' @ message)\<rparr>)"

text \<open>\<open>if (parseError)\<close>: the error when it is neither \<open>null\<close> nor the empty string.\<close>

fun if_set :: "jsstring option \<Rightarrow> jsstring option" where
  "if_set None = None"
| "if_set (Some m) = (if m = [] then None else Some m)"

text \<open>
  The rejection probe of \<open>handleGenerate\<close>: the whole trimmed reply parses as JSON, the
  value is truthy and its \<open>rejection\<close> member is \<open>true\<close>. The result is the text shown.
\<close>

definition rejection_probe :: "engine \<Rightarrow> jsstring \<Rightarrow> jsstring option" where
  "rejection_probe E rawInput =
     (case JSON_parse (trim rawInput) of
        None \<Rightarrow> None
      | Some potentialRejection \<Rightarrow>
          if truthy potentialRejection \<and>
             get_prop potentialRejection (js ''rejection'') = Some (JBool True)
          then Some (js ''AI Rejection: '' @
                 (case get_prop potentialRejection (js ''reason'') of
                    None \<Rightarrow> js ''No reason provided.''
                  | Some r \<Rightarrow> if truthy r then ToString E r else js ''No reason provided.''))
          else None)"

definition handleGenerate :: "engine \<Rightarrow> jsstring \<Rightarrow> ui_state \<Rightarrow> ui_state" where
  "handleGenerate E rawInput st =
     (case rejection_probe E rawInput of
        Some msg \<Rightarrow> (cleared st)\<lparr>ui_error := Some msg\<rparr>
      | None \<Rightarrow>
          (case parseAiOutput E rawInput of
             Inl TypeError \<Rightarrow>
               handleApiKeyError (type_error_message E) (js ''API Error'') (cleared st)
           | Inr r \<Rightarrow>
               (case if_set (error r) of
                  Some parseError \<Rightarrow>
                    (cleared st)\<lparr>ui_error :=
                      Some (parseError @ [0x0A, 0x0A] @ js ''Raw AI Output:'' @ [0x0A] @ rawInput)\<rparr>
                | None \<Rightarrow>
                    (cleared st)\<lparr>ui_gameData := gameData r, ui_gameScript := gameScript r\<rparr>)))"

text \<open>
  The \<open>onload\<close> callback of \<open>handleFileSelected\<close>, for a file read as text. Nothing
  catches what \<open>parseAiOutput\<close> throws here: the fault leaves the callback (\<open>Inl\<close>).
\<close>

definition handleFileSelected :: "engine \<Rightarrow> jsstring \<Rightarrow> ui_state \<Rightarrow> js_error + ui_state" where
  "handleFileSelected E fileText st =
     (case parseAiOutput E fileText of
        Inl e \<Rightarrow> Inl e
      | Inr r \<Rightarrow>
          (case if_set (error r) of
             Some parseError \<Rightarrow>
               Inr ((cleared st)\<lparr>ui_error := Some (js ''Import Error: '' @ parseError)\<rparr>)
           | None \<Rightarrow>
               Inr ((cleared st)\<lparr>ui_gameData := gameData r, ui_gameScript := gameScript r\<rparr>)))"

text \<open>
  An engine with fixed messages, and a starting state, for the closed examples below.
\<close>

definition demo_engine :: engine where
  "demo_engine =
     \<lparr>syntax_error_message = (\<lambda>s. js ''Unexpected token''),
      type_error_message = js ''Cannot read properties of null'',
      number_to_string = (\<lambda>m e. js ''0'')\<rparr>"

definition initial_state :: ui_state where
  "initial_state =
     \<lparr>ui_error = None, ui_gameData = None, ui_gameScript = None, apiKeySelected = True\<rparr>"

section \<open>Export\<close>

text \<open>The descriptor as the source's type \<open>GameData\<close> declares it.\<close>

record GameData =
  title :: jsstring
  description :: jsstring
  target_lang :: jsstring
  comf_language :: jsstring
  labels :: jsstring
  how_to_play :: "jsstring list"

text \<open>The run-time value of a descriptor: an object with the six members in order.\<close>

definition json_of_GameData :: "GameData \<Rightarrow> json" where
  "json_of_GameData d =
     JObj [(js ''title'', JStr (title d)),
           (js ''description'', JStr (description d)),
           (js ''target_lang'', JStr (target_lang d)),
           (js ''comf_language'', JStr (comf_language d)),
           (js ''labels'', JStr (labels d)),
           (js ''how_to_play'', JArr (map JStr (how_to_play d)))]"

text \<open>The strings of a descriptor.\<close>

definition members :: "GameData \<Rightarrow> jsstring list" where
  "members d =
     [title d, description d, target_lang d, comf_language d, labels d] @ how_to_play d"

text \<open>
  \<open>JSON.stringify\<close> on strings (QuoteJSONString): the short escapes, \<open>\u00xx\<close> in
  lower-case hexadecimal for the other code units below \<open>0x20\<close> and \<open>\udxxx\<close> for a
  surrogate that is not part of a pair; every other code unit stands for itself.
\<close>

definition hex_digit :: "nat \<Rightarrow> code_unit" where
  "hex_digit n = (if n < 10 then 0x30 + of_nat n else 0x61 + of_nat (n - 10))"

definition unicode_escape :: "code_unit \<Rightarrow> jsstring" where
  "unicode_escape c =
     [0x5C, 0x75,
      hex_digit (unat c div 4096), hex_digit (unat c div 256 mod 16),
      hex_digit (unat c div 16 mod 16), hex_digit (unat c mod 16)]"

definition is_high_surrogate :: "code_unit \<Rightarrow> bool" where
  "is_high_surrogate c \<longleftrightarrow> 0xD800 \<le> c \<and> c \<le> 0xDBFF"

definition is_low_surrogate :: "code_unit \<Rightarrow> bool" where
  "is_low_surrogate c \<longleftrightarrow> 0xDC00 \<le> c \<and> c \<le> 0xDFFF"

definition quote_unit :: "code_unit \<Rightarrow> jsstring" where
  "quote_unit c =
     (if c = 0x08 then [0x5C, 0x62]
      else if c = 0x09 then [0x5C, 0x74]
      else if c = 0x0A then [0x5C, 0x6E]
      else if c = 0x0C then [0x5C, 0x66]
      else if c = 0x0D then [0x5C, 0x72]
      else if c = 0x22 then [0x5C, 0x22]
      else if c = 0x5C then [0x5C, 0x5C]
      else if c < 0x20 \<or> is_high_surrogate c \<or> is_low_surrogate c then unicode_escape c
      else [c])"

fun quote_units :: "jsstring \<Rightarrow> jsstring" where
  "quote_units [] = []"
| "quote_units [c] = quote_unit c"
| "quote_units (c # d # cs) =
     (if is_high_surrogate c \<and> is_low_surrogate d then c # d # quote_units cs
      else quote_unit c @ quote_units (d # cs))"

definition JSON_quote :: "jsstring \<Rightarrow> jsstring" where
  "JSON_quote s = [0x22] @ quote_units s @ [0x22]"

text \<open>
  \<open>JSON.stringify(gameData, null, 2)\<close> for a descriptor of the declared type: one
  member per line, indented by two spaces; the elements of a non-empty array one per
  line, indented by four; an empty array as \<open>[]\<close>.
\<close>

definition stringify_array :: "jsstring list \<Rightarrow> jsstring" where
  "stringify_array xs =
     (if xs = [] then js ''[]''
      else js ''['' @ [0x0A] @
           join (js '','' @ [0x0A]) (map (\<lambda>x. js ''    '' @ JSON_quote x) xs) @
           [0x0A] @ js ''  ]'')"

definition member_line :: "string \<Rightarrow> jsstring \<Rightarrow> jsstring" where
  "member_line k v = js ''  '' @ JSON_quote (js k) @ js '': '' @ v"

definition stringify_GameData :: "GameData \<Rightarrow> jsstring" where
  "stringify_GameData d =
     js ''{'' @ [0x0A] @
     join (js '','' @ [0x0A])
       [member_line ''title'' (JSON_quote (title d)),
        member_line ''description'' (JSON_quote (description d)),
        member_line ''target_lang'' (JSON_quote (target_lang d)),
        member_line ''comf_language'' (JSON_quote (comf_language d)),
        member_line ''labels'' (JSON_quote (labels d)),
        member_line ''how_to_play'' (stringify_array (how_to_play d))] @
     [0x0A] @ js ''}''"

text \<open>
  \<open>handleExport\<close>: nothing is exported without a descriptor or without a script (an
  empty script is falsy). The result is the content of the file; the name of the file
  is not modelled.
\<close>

definition fileContent :: "GameData \<Rightarrow> jsstring \<Rightarrow> jsstring" where
  "fileContent d script =
     stringify_GameData d @ [0x0A] @ js ''%%BEGINCODE%%'' @ [0x0A] @
     script @ [0x0A] @ js ''%%ENDCODE%%''"

definition handleExport :: "GameData option \<Rightarrow> jsstring option \<Rightarrow> jsstring option" where
  "handleExport data script =
     (case (data, script) of
        (Some d, Some s) \<Rightarrow> if s = [] then None else Some (fileContent d s)
      | _ \<Rightarrow> None)"

text \<open>
  A notion for the proofs about exported text, not a function of the source: a text
  is transparent for a token when putting it in front of a text without the token gives
  a text without the token, so that the token neither occurs in it nor begins in it.
\<close>

definition transparent :: "jsstring \<Rightarrow> jsstring \<Rightarrow> bool" where
  "transparent tok x \<longleftrightarrow> (\<forall>y. indexOf y tok = None \<longrightarrow> indexOf (x @ y) tok = None)"

text \<open>A descriptor for the closed examples below.\<close>

definition sample_descriptor :: GameData where
  "sample_descriptor =
     \<lparr>title = js ''Match Game'', description = js ''Match pairs.'', target_lang = js ''es'',
      comf_language = js ''en'', labels = js ''Language/Idioma, Play/Jugar'',
      how_to_play = [js ''Click a card'']\<rparr>"

section \<open>The label table of \<open>generateHtmlTemplate\<close>\<close>

text \<open>
  The part of \<open>generateHtmlTemplate\<close> that computes \<open>translationsObject\<close>, a piece
  of script text. \<open>sq\<close> is a literal in single quotes.
\<close>

definition sq :: "jsstring \<Rightarrow> jsstring" where
  "sq s = [0x27] @ s @ [0x27]"

definition default_translations :: jsstring where
  "default_translations =
     [0x0A] @ js ''        const t = {'' @ [0x0A] @
     js ''          comf: { language: '' @ sq (js ''Language'') @
     js '', settings: '' @ sq (js ''Settings'') @
     js '', title: '' @ sq (js ''General Title'') @
     js '', play: '' @ sq (js ''Play'') @
     js '', howTo: '' @ sq (js ''How to Play'') @
     js '', date: '' @ sq (js ''October 28, 2025'') @
     js '', user: '' @ sq (js ''by %user%'') @
     js '', madeWith: '' @ sq (js ''Made with AINARA'') @ js '' },'' @ [0x0A] @
     js ''          target: { language: '' @ sq (js ''Idioma'') @
     js '', settings: '' @ sq (js ''Configuraci'' @ [0xF3] @ js ''n'') @
     js '', title: '' @ sq (js ''T'' @ [0xED] @ js ''tulo General'') @
     js '', play: '' @ sq (js ''Jugar'') @
     js '', howTo: '' @ sq (js ''C'' @ [0xF3] @ js ''mo Jugar'') @
     js '', date: '' @ sq (js ''28 octubre 2025'') @
     js '', user: '' @ sq (js ''de %user%'') @
     js '', madeWith: '' @ sq (js ''Hecho con AINARA'') @ js '' }'' @ [0x0A] @
     js ''        };'' @ [0x0A] @ js ''    ''"

definition label_keys :: "jsstring list" where
  "label_keys = [js ''language'', js ''play'', js ''howTo'', js ''settings'', js ''date'',
                 js ''user'', js ''madeWith'']"

text \<open>Reading an array element: \<open>undefined\<close> (\<open>None\<close>) out of range.\<close>

fun element :: "'a list \<Rightarrow> nat \<Rightarrow> 'a option" where
  "element [] i = None"
| "element (x # xs) 0 = Some x"
| "element (x # xs) (Suc i) = element xs i"

text \<open>
  \<open>JSON.stringify\<close> without indentation on an object whose members are strings or
  \<open>undefined\<close>; a member that is \<open>undefined\<close> is left out.
\<close>

definition stringify_table :: "(jsstring \<times> jsstring option) list \<Rightarrow> jsstring" where
  "stringify_table kvs =
     js ''{'' @
     join (js '','')
       (concat (map (\<lambda>(k, v). case v of
                                  None \<Rightarrow> []
                                | Some x \<Rightarrow> [JSON_quote k @ js '':'' @ JSON_quote x]) kvs)) @
     js ''}''"

definition label_pairs :: "jsstring \<Rightarrow> jsstring list list" where
  "label_pairs s = map (\<lambda>p. split (trim p) (js ''/'')) (split s (js '',''))"

definition translationsObject :: "GameData option \<Rightarrow> jsstring" where
  "translationsObject data =
     (case data of
        None \<Rightarrow> default_translations
      | Some d \<Rightarrow>
          if labels d = [] then default_translations
          else
            let pairs = label_pairs (labels d) in
            if length pairs \<ge> length label_keys then
              js ''const t = { comf: '' @
              stringify_table (map (\<lambda>(key, pair). (key, element pair 0)) (zip label_keys pairs)) @
              js '', target: '' @
              stringify_table (map (\<lambda>(key, pair). (key, element pair 1)) (zip label_keys pairs)) @
              js '' };''
            else default_translations)"

section \<open>Parameter values in \<open>analyzeGameScript\<close>\<close>

text \<open>
  The callback that \<open>analyzeGameScript\<close> maps over the parameters the model returned.
  The response schema declares the four members as strings.
\<close>

record raw_parameter =
  p_name :: jsstring
  p_description :: jsstring
  p_type :: jsstring
  p_value :: jsstring

record GameParameter =
  name :: jsstring
  description' :: jsstring
  type' :: jsstring
  val :: json

text \<open>\<open>s.slice(1, -1)\<close> and \<open>s.replace(/"/g, '\\"')\<close>.\<close>

definition slice_1_m1 :: "jsstring \<Rightarrow> jsstring" where
  "slice_1_m1 s = take (length s - 2) (drop 1 s)"

definition escape_quotes :: "jsstring \<Rightarrow> jsstring" where
  "escape_quotes s = concat (map (\<lambda>c. if c = 0x22 then [0x5C, 0x22] else [c]) s)"

definition valueStr :: "jsstring \<Rightarrow> jsstring" where
  "valueStr v =
     (if startsWith v [0x27] \<and> endsWith v [0x27]
      then [0x22] @ escape_quotes (slice_1_m1 v) @ [0x22]
      else v)"

text \<open>The \<open>try\<close> block with its \<open>catch\<close>: the raw text where the parse throws.\<close>

definition parsedValue :: "jsstring \<Rightarrow> json" where
  "parsedValue v = (case JSON_parse (valueStr v) of Some x \<Rightarrow> x | None \<Rightarrow> JStr v)"

definition is_object :: "json \<Rightarrow> bool" where
  "is_object x = (case x of JArr _ \<Rightarrow> True | JObj _ \<Rightarrow> True | _ \<Rightarrow> False)"

definition finalType :: "jsstring \<Rightarrow> json \<Rightarrow> jsstring" where
  "finalType t x =
     (case x of
        JArr xs \<Rightarrow> (case xs of y # _ \<Rightarrow> if is_object y then js ''array_object'' else t | [] \<Rightarrow> t)
      | JObj _ \<Rightarrow> js ''object''
      | _ \<Rightarrow> t)"

definition parse_parameter :: "raw_parameter \<Rightarrow> GameParameter" where
  "parse_parameter p =
     \<lparr>name = p_name p, description' = p_description p,
      type' = finalType (p_type p) (parsedValue (p_value p)),
      val = parsedValue (p_value p)\<rparr>"

section \<open>Idea offers in \<open>ChatPanel\<close>\<close>

text \<open>
  The pattern \<^verbatim>\<open>/^\s*([*\-]\s*|\d+\.\s*)/\<close>, anchored at the start: white space, then a
  bullet or an ordinal with its full stop, then white space.
\<close>

definition re_list_marker :: matcher where
  "re_list_marker s =
     (case dropWhile is_space s of
        [] \<Rightarrow> None
      | c # cs \<Rightarrow>
          if c = 0x2A \<or> c = 0x2D then Some (length s - length (dropWhile is_space cs))
          else
            (case dropWhile is_digit (c # cs) of
               [] \<Rightarrow> None
             | e # es \<Rightarrow>
                 if is_digit c \<and> e = 0x2E
                 then Some (length s - length (dropWhile is_space es))
                 else None))"

definition replace_at_start :: "matcher \<Rightarrow> jsstring \<Rightarrow> jsstring" where
  "replace_at_start m s = (case m s of Some n \<Rightarrow> drop n s | None \<Rightarrow> s)"

definition ideaMarker :: jsstring where
  "ideaMarker = js ''&&IDEA&&''"

text \<open>
  What the body of an assistant message renders to, part by part: \<open>None\<close> for a part
  that renders nothing, otherwise the text given to the Markdown renderer and, where
  the button is shown, the idea it imports.
\<close>

datatype rendered = Rendered jsstring "jsstring option"

definition ideaText :: "jsstring \<Rightarrow> jsstring" where
  "ideaText part = replace_at_start re_list_marker (trim part)"

definition render_part :: "bool \<Rightarrow> jsstring \<Rightarrow> rendered option" where
  "render_part isLastPart part =
     (let showButton = \<not> isLastPart \<and> ideaText part \<noteq> [] in
      if trim part = [] \<and> isLastPart then None
      else Some (Rendered part (if showButton then Some (ideaText part) else None)))"

fun render_parts :: "jsstring list \<Rightarrow> rendered option list" where
  "render_parts [] = []"
| "render_parts [part] = [render_part True part]"
| "render_parts (part # next # rest) = render_part False part # render_parts (next # rest)"

definition render_body :: "jsstring \<Rightarrow> rendered option list" where
  "render_body body = (if body = [] then [] else render_parts (split body ideaMarker))"

fun offer :: "rendered option \<Rightarrow> jsstring option" where
  "offer None = None"
| "offer (Some (Rendered part idea)) = idea"

definition offers :: "jsstring \<Rightarrow> jsstring list" where
  "offers body = concat (map (\<lambda>r. case offer r of None \<Rightarrow> [] | Some i \<Rightarrow> [i]) (render_body body))"

section \<open>Properties of the string functions\<close>

lemma startsWith_iff: "startsWith s t \<longleftrightarrow> (\<exists>b. s = t @ b)"
  by (induction s t rule: startsWith.induct) auto

lemma indexOf_None_iff: "indexOf s t = None \<longleftrightarrow> (\<nexists>a b. s = a @ t @ b)"
proof (induction s)
  case Nil
  then show ?case by auto
next
  case (Cons c cs)
  show ?case
  proof (cases "startsWith (c # cs) t")
    case True
    then obtain b where "c # cs = [] @ t @ b" by (auto simp: startsWith_iff)
    with True show ?thesis by (metis indexOf.simps(2) option.distinct(1))
  next
    case False
    have "(\<exists>a b. c # cs = a @ t @ b) \<longleftrightarrow> (\<exists>a b. cs = a @ t @ b)"
    proof
      assume "\<exists>a b. c # cs = a @ t @ b"
      then obtain a b where ab: "c # cs = a @ t @ b" by blast
      show "\<exists>a b. cs = a @ t @ b"
      proof (cases a)
        case Nil
        with ab False show ?thesis by (simp add: startsWith_iff)
      next
        case (Cons x a')
        with ab show ?thesis by auto
      qed
    next
      assume "\<exists>a b. cs = a @ t @ b"
      then obtain a b where "cs = a @ t @ b" by blast
      then have "c # cs = (c # a) @ t @ b" by simp
      then show "\<exists>a b. c # cs = a @ t @ b" by blast
    qed
    with False Cons show ?thesis by simp
  qed
qed

lemma indexOf_Some:
  "indexOf s t = Some i \<Longrightarrow> s = take i s @ t @ drop (i + length t) s"
proof (induction s arbitrary: i)
  case Nil
  then show ?case by (simp split: if_splits)
next
  case (Cons c cs)
  show ?case
  proof (cases "startsWith (c # cs) t")
    case True
    with Cons.prems have "i = 0" by simp
    with True show ?thesis by (auto simp: startsWith_iff)
  next
    case False
    with Cons.prems obtain j where j: "indexOf cs t = Some j" "i = Suc j" by auto
    from Cons.IH [OF j(1)] j(2) show ?thesis by simp
  qed
qed

text \<open>Blank means: every code unit is white space.\<close>

lemma trim_Nil_iff: "trim s = [] \<longleftrightarrow> (\<forall>c\<in>set s. is_space c)"
proof
  assume "trim s = []"
  then have "\<forall>c\<in>set (dropWhile is_space s). is_space c"
    by (simp add: trim_def dropWhile_eq_Nil_conv)
  then have "dropWhile is_space s = []"
    by (metis dropWhile_eq_Nil_conv hd_dropWhile list.set_sel(1))
  then show "\<forall>c\<in>set s. is_space c" by (simp add: dropWhile_eq_Nil_conv)
next
  assume "\<forall>c\<in>set s. is_space c"
  then show "trim s = []" by (auto simp: trim_def dest: set_dropWhileD)
qed

section \<open>Properties of \<open>parseAiOutput\<close>\<close>

text \<open>
  C6: a raw input that is empty or consists of white space only gives the idle outcome:
  no descriptor, no script and no error.
\<close>

theorem parseAiOutput_blank:
  assumes "\<forall>c\<in>set rawInput. is_space c"
  shows "parseAiOutput E rawInput = Inr \<lparr>gameData = None, gameScript = None, error = None\<rparr>"
  using assms by (simp add: parseAiOutput_def trim_Nil_iff)

theorem parseAiOutput_blank_witness:
  "parseAiOutput demo_engine (js ''  '' @ [0x0A, 0x09]) =
     Inr \<lparr>gameData = None, gameScript = None, error = None\<rparr>"
  by (rule parseAiOutput_blank) (simp add: js_def is_space_def)

text \<open>
  C7: a raw input that is not blank and does not contain the token \<open>%%BEGINCODE%%\<close>
  gives an error whose message contains that token, and neither a descriptor nor a
  script.
\<close>

theorem parseAiOutput_no_separator:
  assumes "\<exists>c\<in>set rawInput. \<not> is_space c"
    and "\<nexists>a b. rawInput = a @ codeSeparator @ b"
  shows "parseAiOutput E rawInput =
           Inr \<lparr>gameData = None, gameScript = None, error = Some separator_not_found\<rparr> \<and>
         (\<exists>a b. separator_not_found = a @ codeSeparator @ b)"
proof -
  from assms(1) have "trim rawInput \<noteq> []" by (simp add: trim_Nil_iff)
  moreover from assms(2) have "indexOf rawInput codeSeparator = None"
    by (simp add: indexOf_None_iff)
  moreover have "separator_not_found =
      (js ''Parsing Error: '' @ [0x27]) @ codeSeparator @ ([0x27] @ js '' separator not found.'')"
    by (simp add: separator_not_found_def codeSeparator_def)
  ultimately show ?thesis
    by (simp only: parseAiOutput_def failure_def if_False option.case) blast
qed

theorem parseAiOutput_no_separator_witness:
  "parseAiOutput demo_engine (js ''Here is your game: {}'') =
     Inr \<lparr>gameData = None, gameScript = None, error = Some separator_not_found\<rparr> \<and>
   (\<exists>a b. separator_not_found = a @ codeSeparator @ b)"
proof (rule parseAiOutput_no_separator)
  show "\<exists>c\<in>set (js ''Here is your game: {}''). \<not> is_space c"
    by (simp add: js_def is_space_def)
  have "indexOf (js ''Here is your game: {}'') codeSeparator = None"
    by (simp add: js_def codeSeparator_def)
  then show "\<nexists>a b. js ''Here is your game: {}'' = a @ codeSeparator @ b"
    by (simp add: indexOf_None_iff)
qed

text \<open>
  C5: the example input parses to the descriptor with title \<open>Match Game\<close>, description
  \<open>Match pairs.\<close> and the one instruction \<open>Click a card\<close>, and to the script
  \<open>var x=1;\<close>.
\<close>

theorem parseAiOutput_match_game:
  "parseAiOutput E
     (js ''{\"title\":\"Match Game\",\"description\":\"Match pairs.\",\"how_to_play\":[\"Click a card\"]}%%BEGINCODE%%<script>var x=1;</script>%%ENDCODE%%'') =
   Inr \<lparr>gameData = Some (JObj [(js ''title'', JStr (js ''Match Game'')),
                                 (js ''description'', JStr (js ''Match pairs.'')),
                                 (js ''how_to_play'', JArr [JStr (js ''Click a card'')])]),
        gameScript = Some (js ''var x=1;''),
        error = None\<rparr>"
  by code_simp

lemma failure_nonempty:
  "separator_not_found \<noteq> []" "missing_fields \<noteq> []" "js ''JSON Parsing Error: '' @ m \<noteq> []"
  by (simp_all add: separator_not_found_def missing_fields_def js_def)

lemma parseAiOutput_error_cases:
  assumes "parseAiOutput E rawInput = Inr r" and "error r = Some e"
  shows "e = separator_not_found \<or> e = missing_fields \<or>
         (\<exists>i. indexOf rawInput codeSeparator = Some i \<and>
              e = js ''JSON Parsing Error: '' @
                  syntax_error_message E (cleanedJsonString (take i rawInput)))"
  using assms
  by (auto simp: parseAiOutput_def failure_def split: if_splits option.splits)

lemma parseAiOutput_error_unit:
  assumes "parseAiOutput E rawInput = Inr r" and "error r = Some e"
  shows "gameData r = None \<and> gameScript r = None"
  using assms
  by (auto simp: parseAiOutput_def failure_def split: if_splits option.splits)

lemma parseAiOutput_returns:
  assumes "\<forall>i. indexOf rawInput codeSeparator = Some i \<longrightarrow>
             JSON_parse (cleanedJsonString (take i rawInput)) \<noteq> Some JNull"
  shows "\<exists>r. parseAiOutput E rawInput = Inr r"
  using assms
  by (auto simp: parseAiOutput_def split: option.splits)

lemma parseAiOutput_error_nonempty:
  assumes "parseAiOutput E rawInput = Inr r" and "error r = Some e"
  shows "e \<noteq> []"
  using parseAiOutput_error_cases [OF assms] failure_nonempty by auto

lemma has_required_fields_iff:
  "has_required_fields d \<longleftrightarrow>
     truthy_prop d (js ''title'') \<and> truthy_prop d (js ''description'') \<and>
     (\<exists>xs. get_prop d (js ''how_to_play'') = Some (JArr xs))"
  by (auto simp: has_required_fields_def truthy_prop_def isArray_def
      split: option.splits json.splits)

lemma indexOf_codeSeparator_not_blank:
  assumes "indexOf rawInput codeSeparator = Some i"
  shows "trim rawInput \<noteq> []"
proof -
  obtain rest where "codeSeparator = 0x25 # rest"
    by (simp add: codeSeparator_def js_def)
  with indexOf_Some [OF assms] obtain a b where "rawInput = a @ 0x25 # b"
    by (metis append_Cons)
  then have "0x25 \<in> set rawInput" by simp
  moreover have "\<not> is_space 0x25" by (simp add: is_space_def)
  ultimately show ?thesis by (auto simp: trim_Nil_iff)
qed

text \<open>
  C2 (as the code has it): a descriptor is returned only together with a script and
  without an error, and only when \<open>title\<close> and \<open>description\<close> are truthy and
  \<open>how_to_play\<close> is an array, which may be empty; no script is returned without a
  descriptor; and whenever the preamble before the marker parses to a value other than
  \<open>null\<close> that lacks one of the three, the result is the error that names them,
  with neither descriptor nor script.
\<close>

theorem parseAiOutput_required_fields:
  "(parseAiOutput E rawInput = Inr r \<and> gameData r = Some d \<longrightarrow>
      truthy_prop d (js ''title'') \<and> truthy_prop d (js ''description'') \<and>
      (\<exists>xs. get_prop d (js ''how_to_play'') = Some (JArr xs)) \<and>
      (\<exists>s. gameScript r = Some s) \<and> error r = None) \<and>
   (parseAiOutput E rawInput = Inr r \<and> gameData r = None \<longrightarrow> gameScript r = None) \<and>
   (indexOf rawInput codeSeparator = Some i \<and>
    JSON_parse (cleanedJsonString (take i rawInput)) = Some v \<and> v \<noteq> JNull \<and>
    \<not> (truthy_prop v (js ''title'') \<and> truthy_prop v (js ''description'') \<and>
       (\<exists>xs. get_prop v (js ''how_to_play'') = Some (JArr xs))) \<longrightarrow>
      parseAiOutput E rawInput =
        Inr \<lparr>gameData = None, gameScript = None, error = Some missing_fields\<rparr>) \<and>
   (\<exists>a b. missing_fields = a @ js ''title, description, how_to_play (must be an array)'' @ b)"
proof (intro conjI impI)
  assume a: "parseAiOutput E rawInput = Inr r \<and> gameData r = Some d"
  then have "has_required_fields d \<and> (\<exists>s. gameScript r = Some s) \<and> error r = None"
    by (auto simp: parseAiOutput_def failure_def split: if_splits option.splits)
  then show "truthy_prop d (js ''title'')" "truthy_prop d (js ''description'')"
    "\<exists>xs. get_prop d (js ''how_to_play'') = Some (JArr xs)"
    "\<exists>s. gameScript r = Some s" "error r = None"
    by (simp_all add: has_required_fields_iff)
next
  assume "parseAiOutput E rawInput = Inr r \<and> gameData r = None"
  then show "gameScript r = None"
    by (auto simp: parseAiOutput_def failure_def split: if_splits option.splits)
next
  assume a: "indexOf rawInput codeSeparator = Some i \<and>
    JSON_parse (cleanedJsonString (take i rawInput)) = Some v \<and> v \<noteq> JNull \<and>
    \<not> (truthy_prop v (js ''title'') \<and> truthy_prop v (js ''description'') \<and>
       (\<exists>xs. get_prop v (js ''how_to_play'') = Some (JArr xs)))"
  then have "trim rawInput \<noteq> []" by (simp add: indexOf_codeSeparator_not_blank)
  moreover from a have "\<not> has_required_fields v" by (simp add: has_required_fields_iff)
  ultimately show "parseAiOutput E rawInput =
      Inr \<lparr>gameData = None, gameScript = None, error = Some missing_fields\<rparr>"
    using a by (simp add: parseAiOutput_def failure_def)
next
  have "missing_fields =
      js ''Parsing Error: The AI response is missing one or more required fields: '' @
      js ''title, description, how_to_play (must be an array)'' @ js ''.''"
    by (simp add: missing_fields_def js_def)
  then show "\<exists>a b. missing_fields = a @ js ''title, description, how_to_play (must be an array)'' @ b"
    by blast
qed

theorem parseAiOutput_required_fields_witness:
  "parseAiOutput demo_engine (js ''{\"title\":\"T\",\"description\":\"D\",\"how_to_play\":\"x\"}%%BEGINCODE%%var x;'') =
     Inr \<lparr>gameData = None, gameScript = None, error = Some missing_fields\<rparr> \<and>
   truthy_prop (JObj [(js ''title'', JStr (js ''T'')), (js ''description'', JStr (js ''D'')),
                      (js ''how_to_play'', JArr [])]) (js ''title'')"
proof -
  let ?bad = "js ''{\"title\":\"T\",\"description\":\"D\",\"how_to_play\":\"x\"}%%BEGINCODE%%var x;''"
  let ?v = "JObj [(js ''title'', JStr (js ''T'')), (js ''description'', JStr (js ''D'')),
                  (js ''how_to_play'', JStr (js ''x''))]"
  let ?good = "js ''{\"title\":\"T\",\"description\":\"D\",\"how_to_play\":[]}%%BEGINCODE%%x''"
  let ?d = "JObj [(js ''title'', JStr (js ''T'')), (js ''description'', JStr (js ''D'')),
                  (js ''how_to_play'', JArr [])]"
  let ?r = "\<lparr>gameData = Some ?d, gameScript = Some (js ''x''), error = None\<rparr>"
  have 1: "indexOf ?bad codeSeparator = Some 49" by code_simp
  have 2: "JSON_parse (cleanedJsonString (take 49 ?bad)) = Some ?v" by code_simp
  have 3: "?v \<noteq> JNull" by simp
  have 4: "\<not> (truthy_prop ?v (js ''title'') \<and> truthy_prop ?v (js ''description'') \<and>
              (\<exists>xs. get_prop ?v (js ''how_to_play'') = Some (JArr xs)))"
    by (simp add: js_def)
  have 5: "parseAiOutput demo_engine ?good = Inr ?r" by code_simp
  have 6: "gameData ?r = Some ?d" by simp
  from parseAiOutput_required_fields [of demo_engine ?bad ?r ?d 49 ?v] 1 2 3 4
  have "parseAiOutput demo_engine ?bad =
      Inr \<lparr>gameData = None, gameScript = None, error = Some missing_fields\<rparr>"
    by blast
  moreover from parseAiOutput_required_fields [of demo_engine ?good ?r ?d 0 JNull] 5 6
  have "truthy_prop ?d (js ''title'')" by blast
  moreover from parseAiOutput_required_fields [of demo_engine ?bad
      "\<lparr>gameData = None, gameScript = None, error = Some missing_fields\<rparr>" ?d 49 ?v]
    \<open>parseAiOutput demo_engine ?bad =
      Inr \<lparr>gameData = None, gameScript = None, error = Some missing_fields\<rparr>\<close>
  have "gameScript \<lparr>gameData = None, gameScript = None, error = Some missing_fields\<rparr> = None"
    by simp
  ultimately show ?thesis by simp
qed

theorem empty_how_to_play_accepted:
  "parseAiOutput demo_engine (js ''{\"title\":\"T\",\"description\":\"D\",\"how_to_play\":[]}%%BEGINCODE%%x'') =
     Inr \<lparr>gameData = Some (JObj [(js ''title'', JStr (js ''T'')),
                                   (js ''description'', JStr (js ''D'')),
                                   (js ''how_to_play'', JArr [])]),
          gameScript = Some (js ''x''), error = None\<rparr>"
  by code_simp

text \<open>
  C1 (as the code has it): the rejection probe answers exactly when the whole trimmed
  reply parses as JSON to a value whose member \<open>rejection\<close> is \<open>true\<close>. Then the
  generation flow shows \<open>AI Rejection: \<close> followed by the reason (by the fallback text
  when the member \<open>reason\<close> is missing or falsy), and sets neither descriptor nor
  script; for a reason that is a non-empty string, that string is shown. For every
  other reply, whatever other members such as \<open>rejected\<close> it has, the probe does not
  answer and the flow goes on with \<open>parseAiOutput\<close>.
\<close>

theorem handleGenerate_rejection:
  "(JSON_parse (trim rawInput) = Some v \<and>
    get_prop v (js ''rejection'') = Some (JBool True) \<longrightarrow>
      handleGenerate E rawInput st =
        (cleared st)\<lparr>ui_error :=
           Some (js ''AI Rejection: '' @
             (case get_prop v (js ''reason'') of
                None \<Rightarrow> js ''No reason provided.''
              | Some r \<Rightarrow> if truthy r then ToString E r else js ''No reason provided.''))\<rparr>) \<and>
   (JSON_parse (trim rawInput) = Some v \<and>
    get_prop v (js ''rejection'') = Some (JBool True) \<and>
    get_prop v (js ''reason'') = Some (JStr reason) \<and> reason \<noteq> [] \<longrightarrow>
      handleGenerate E rawInput st =
        (cleared st)\<lparr>ui_error := Some (js ''AI Rejection: '' @ reason)\<rparr>) \<and>
   ((\<forall>w. JSON_parse (trim rawInput) = Some w \<longrightarrow>
          get_prop w (js ''rejection'') \<noteq> Some (JBool True)) \<longrightarrow>
      rejection_probe E rawInput = None \<and>
      handleGenerate E rawInput st =
        (case parseAiOutput E rawInput of
           Inl TypeError \<Rightarrow>
             handleApiKeyError (type_error_message E) (js ''API Error'') (cleared st)
         | Inr r \<Rightarrow>
             (case if_set (error r) of
                Some parseError \<Rightarrow>
                  (cleared st)\<lparr>ui_error :=
                    Some (parseError @ [0x0A, 0x0A] @ js ''Raw AI Output:'' @ [0x0A] @ rawInput)\<rparr>
              | None \<Rightarrow>
                  (cleared st)\<lparr>ui_gameData := gameData r, ui_gameScript := gameScript r\<rparr>)))"
proof (intro conjI impI)
  assume a: "JSON_parse (trim rawInput) = Some v \<and>
    get_prop v (js ''rejection'') = Some (JBool True)"
  then have "truthy v" by (cases v) simp_all
  with a show "handleGenerate E rawInput st =
        (cleared st)\<lparr>ui_error :=
           Some (js ''AI Rejection: '' @
             (case get_prop v (js ''reason'') of
                None \<Rightarrow> js ''No reason provided.''
              | Some r \<Rightarrow> if truthy r then ToString E r else js ''No reason provided.''))\<rparr>"
    by (simp add: handleGenerate_def rejection_probe_def)
next
  assume a: "JSON_parse (trim rawInput) = Some v \<and>
    get_prop v (js ''rejection'') = Some (JBool True) \<and>
    get_prop v (js ''reason'') = Some (JStr reason) \<and> reason \<noteq> []"
  then have "truthy v" by (cases v) simp_all
  with a show "handleGenerate E rawInput st =
        (cleared st)\<lparr>ui_error := Some (js ''AI Rejection: '' @ reason)\<rparr>"
    by (simp add: handleGenerate_def rejection_probe_def)
next
  assume a: "\<forall>w. JSON_parse (trim rawInput) = Some w \<longrightarrow>
          get_prop w (js ''rejection'') \<noteq> Some (JBool True)"
  then show p: "rejection_probe E rawInput = None"
    by (simp add: rejection_probe_def split: option.splits)
  show "handleGenerate E rawInput st =
        (case parseAiOutput E rawInput of
           Inl TypeError \<Rightarrow>
             handleApiKeyError (type_error_message E) (js ''API Error'') (cleared st)
         | Inr r \<Rightarrow>
             (case if_set (error r) of
                Some parseError \<Rightarrow>
                  (cleared st)\<lparr>ui_error :=
                    Some (parseError @ [0x0A, 0x0A] @ js ''Raw AI Output:'' @ [0x0A] @ rawInput)\<rparr>
              | None \<Rightarrow>
                  (cleared st)\<lparr>ui_gameData := gameData r, ui_gameScript := gameScript r\<rparr>))"
    by (simp only: handleGenerate_def p option.case)
qed

theorem handleGenerate_rejection_witness:
  "handleGenerate demo_engine (js ''{\"rejection\": true, \"reason\": \"No audio support\"}'')
     initial_state =
   \<lparr>ui_error = Some (js ''AI Rejection: No audio support''), ui_gameData = None,
    ui_gameScript = None, apiKeySelected = True\<rparr> \<and>
   handleGenerate demo_engine (js ''{\"rejection\": true}'') initial_state =
   \<lparr>ui_error = Some (js ''AI Rejection: No reason provided.''), ui_gameData = None,
    ui_gameScript = None, apiKeySelected = True\<rparr> \<and>
   rejection_probe demo_engine (js ''{\"rejected\": true}'') = None \<and>
   handleGenerate demo_engine (js ''{\"rejected\": true}'') initial_state =
   \<lparr>ui_error = Some (separator_not_found @ [0x0A, 0x0A] @ js ''Raw AI Output:'' @ [0x0A] @
                      js ''{\"rejected\": true}''),
    ui_gameData = None, ui_gameScript = None, apiKeySelected = True\<rparr>"
proof -
  let ?raw = "js ''{\"rejection\": true, \"reason\": \"No audio support\"}''"
  let ?v = "JObj [(js ''rejection'', JBool True), (js ''reason'', JStr (js ''No audio support''))]"
  let ?bare = "js ''{\"rejection\": true}''"
  let ?b = "JObj [(js ''rejection'', JBool True)]"
  let ?other = "js ''{\"rejected\": true}''"
  let ?o = "JObj [(js ''rejected'', JBool True)]"
  have 1: "JSON_parse (trim ?raw) = Some ?v" by code_simp
  have 2: "get_prop ?v (js ''rejection'') = Some (JBool True)" by (simp add: js_def)
  have 3: "get_prop ?v (js ''reason'') = Some (JStr (js ''No audio support''))"
    by (simp add: js_def)
  have 4: "js ''No audio support'' \<noteq> []" by (simp add: js_def)
  have 5: "JSON_parse (trim ?bare) = Some ?b" by code_simp
  have 6: "get_prop ?b (js ''rejection'') = Some (JBool True)" by (simp add: js_def)
  have 7: "get_prop ?b (js ''reason'') = None" by (simp add: js_def)
  have 8: "JSON_parse (trim ?other) = Some ?o" by code_simp
  have 9: "get_prop ?o (js ''rejection'') \<noteq> Some (JBool True)" by (simp add: js_def)
  have 10: "parseAiOutput demo_engine ?other =
      Inr \<lparr>gameData = None, gameScript = None, error = Some separator_not_found\<rparr>"
    by code_simp
  have 11: "separator_not_found \<noteq> []" by (rule failure_nonempty)
  have a: "handleGenerate demo_engine ?raw initial_state =
      (cleared initial_state)\<lparr>ui_error := Some (js ''AI Rejection: '' @ js ''No audio support'')\<rparr>"
    using handleGenerate_rejection
      [of ?raw ?v demo_engine initial_state "js ''No audio support''"] 1 2 3 4
    by blast
  have "handleGenerate demo_engine ?bare initial_state =
      (cleared initial_state)\<lparr>ui_error :=
         Some (js ''AI Rejection: '' @
           (case get_prop ?b (js ''reason'') of
              None \<Rightarrow> js ''No reason provided.''
            | Some r \<Rightarrow> if truthy r then ToString demo_engine r
                else js ''No reason provided.''))\<rparr>"
    using handleGenerate_rejection [of ?bare ?b demo_engine initial_state "[]"] 5 6
    by blast
  then have b: "handleGenerate demo_engine ?bare initial_state =
      (cleared initial_state)\<lparr>ui_error := Some (js ''AI Rejection: '' @ js ''No reason provided.'')\<rparr>"
    by (simp only: 7 option.case)
  have "\<forall>w. JSON_parse (trim ?other) = Some w \<longrightarrow>
          get_prop w (js ''rejection'') \<noteq> Some (JBool True)"
    using 9 by (simp add: 8)
  with handleGenerate_rejection [of ?other JNull demo_engine initial_state "[]"]
  have c: "rejection_probe demo_engine ?other = None \<and>
      handleGenerate demo_engine ?other initial_state =
        (cleared initial_state)\<lparr>ui_error :=
           Some (separator_not_found @ [0x0A, 0x0A] @ js ''Raw AI Output:'' @ [0x0A] @ ?other)\<rparr>"
    using 11 by (simp add: 10)
  from a b c show ?thesis
    by (simp add: cleared_def initial_state_def js_def)
qed

theorem rejected_member_not_recognised:
  "rejection_probe demo_engine (js ''{\"rejected\": true, \"reason\": \"No audio support\"}'') = None \<and>
   handleGenerate demo_engine (js ''{\"rejected\": true, \"reason\": \"No audio support\"}'')
     initial_state =
   \<lparr>ui_error = Some (separator_not_found @ [0x0A, 0x0A] @ js ''Raw AI Output:'' @ [0x0A] @
                      js ''{\"rejected\": true, \"reason\": \"No audio support\"}''),
    ui_gameData = None, ui_gameScript = None, apiKeySelected = True\<rparr>"
  by code_simp

text \<open>
  C4 (as the code has it): on every input where the text before the marker does not
  parse to \<open>null\<close>, \<open>parseAiOutput\<close> returns a record and the import flow returns a
  state; nothing is thrown. A non-blank input without the marker gives the failure
  record with the marker message, a preamble that is not valid JSON gives the failure
  record with \<open>JSON Parsing Error: \<close> followed by the parser's own message, and a
  preamble that parses to a value other than \<open>null\<close> lacking a required field gives the
  failure record with the missing-fields message. Whenever \<open>parseAiOutput\<close> reports an
  error, the record carries neither descriptor nor script, the error is one of these
  three explanations, the generation flow (when the rejection probe has not answered
  first) shows it followed by a blank line, \<open>Raw AI Output:\<close> and the raw text, and the
  import flow shows it after \<open>Import Error: \<close>, without the raw text.
\<close>

theorem parse_error_shown:
  "((\<exists>c\<in>set rawInput. \<not> is_space c) \<and> (\<nexists>a b. rawInput = a @ codeSeparator @ b) \<longrightarrow>
      parseAiOutput E rawInput =
        Inr \<lparr>gameData = None, gameScript = None, error = Some separator_not_found\<rparr>) \<and>
   (indexOf rawInput codeSeparator = Some i \<and>
    JSON_parse (cleanedJsonString (take i rawInput)) = None \<longrightarrow>
      parseAiOutput E rawInput =
        Inr \<lparr>gameData = None, gameScript = None,
             error = Some (js ''JSON Parsing Error: '' @
                       syntax_error_message E (cleanedJsonString (take i rawInput)))\<rparr>) \<and>
   (indexOf rawInput codeSeparator = Some i \<and>
    JSON_parse (cleanedJsonString (take i rawInput)) = Some v \<and>
    v \<noteq> JNull \<and> \<not> has_required_fields v \<longrightarrow>
      parseAiOutput E rawInput =
        Inr \<lparr>gameData = None, gameScript = None, error = Some missing_fields\<rparr>) \<and>
   ((\<forall>k. indexOf rawInput codeSeparator = Some k \<longrightarrow>
          JSON_parse (cleanedJsonString (take k rawInput)) \<noteq> Some JNull) \<longrightarrow>
      (\<exists>p. parseAiOutput E rawInput = Inr p) \<and>
      (\<exists>st'. handleFileSelected E rawInput st = Inr st')) \<and>
   (parseAiOutput E rawInput = Inr r \<and> error r = Some e \<longrightarrow>
      gameData r = None \<and> gameScript r = None \<and>
      (e = separator_not_found \<or> e = missing_fields \<or>
       (\<exists>k. indexOf rawInput codeSeparator = Some k \<and>
            e = js ''JSON Parsing Error: '' @
                syntax_error_message E (cleanedJsonString (take k rawInput)))) \<and>
      (rejection_probe E rawInput = None \<longrightarrow>
         handleGenerate E rawInput st =
           (cleared st)\<lparr>ui_error :=
              Some (e @ [0x0A, 0x0A] @ js ''Raw AI Output:'' @ [0x0A] @ rawInput)\<rparr>) \<and>
      handleFileSelected E rawInput st =
        Inr ((cleared st)\<lparr>ui_error := Some (js ''Import Error: '' @ e)\<rparr>))"
proof (intro conjI impI)
  assume a: "(\<exists>c\<in>set rawInput. \<not> is_space c) \<and> (\<nexists>a b. rawInput = a @ codeSeparator @ b)"
  then have "trim rawInput \<noteq> []" by (simp add: trim_Nil_iff)
  moreover from a have "indexOf rawInput codeSeparator = None"
    by (simp add: indexOf_None_iff)
  ultimately show "parseAiOutput E rawInput =
        Inr \<lparr>gameData = None, gameScript = None, error = Some separator_not_found\<rparr>"
    by (simp add: parseAiOutput_def failure_def)
next
  assume a: "indexOf rawInput codeSeparator = Some i \<and>
    JSON_parse (cleanedJsonString (take i rawInput)) = None"
  then have "trim rawInput \<noteq> []" by (simp add: indexOf_codeSeparator_not_blank)
  with a show "parseAiOutput E rawInput =
        Inr \<lparr>gameData = None, gameScript = None,
             error = Some (js ''JSON Parsing Error: '' @
                       syntax_error_message E (cleanedJsonString (take i rawInput)))\<rparr>"
    by (simp add: parseAiOutput_def failure_def)
next
  assume a: "indexOf rawInput codeSeparator = Some i \<and>
    JSON_parse (cleanedJsonString (take i rawInput)) = Some v \<and>
    v \<noteq> JNull \<and> \<not> has_required_fields v"
  then have "trim rawInput \<noteq> []" by (simp add: indexOf_codeSeparator_not_blank)
  with a show "parseAiOutput E rawInput =
        Inr \<lparr>gameData = None, gameScript = None, error = Some missing_fields\<rparr>"
    by (simp add: parseAiOutput_def failure_def)
next
  assume a: "\<forall>k. indexOf rawInput codeSeparator = Some k \<longrightarrow>
          JSON_parse (cleanedJsonString (take k rawInput)) \<noteq> Some JNull"
  then obtain p where p: "parseAiOutput E rawInput = Inr p"
    using parseAiOutput_returns by blast
  then show "\<exists>p. parseAiOutput E rawInput = Inr p" ..
  from p show "\<exists>st'. handleFileSelected E rawInput st = Inr st'"
    by (simp add: handleFileSelected_def split: option.splits)
next
  assume a: "parseAiOutput E rawInput = Inr r \<and> error r = Some e"
  then have r: "parseAiOutput E rawInput = Inr r" and e: "error r = Some e"
    by simp_all
  from parseAiOutput_error_unit [OF r e]
  show "gameData r = None" and "gameScript r = None" by simp_all
  have "e \<noteq> []" using parseAiOutput_error_nonempty [OF r e] .
  with e have s: "if_set (error r) = Some e" by simp
  show "e = separator_not_found \<or> e = missing_fields \<or>
       (\<exists>k. indexOf rawInput codeSeparator = Some k \<and>
            e = js ''JSON Parsing Error: '' @
                syntax_error_message E (cleanedJsonString (take k rawInput)))"
    using parseAiOutput_error_cases [OF r e] .
  show "handleFileSelected E rawInput st =
        Inr ((cleared st)\<lparr>ui_error := Some (js ''Import Error: '' @ e)\<rparr>)"
    using r s by (simp add: handleFileSelected_def)
  assume "rejection_probe E rawInput = None"
  with r s show "handleGenerate E rawInput st =
           (cleared st)\<lparr>ui_error :=
              Some (e @ [0x0A, 0x0A] @ js ''Raw AI Output:'' @ [0x0A] @ rawInput)\<rparr>"
    by (simp add: handleGenerate_def)
qed

theorem parse_error_shown_witness:
  "parseAiOutput demo_engine (js ''Sure, one moment.'') =
     Inr \<lparr>gameData = None, gameScript = None, error = Some separator_not_found\<rparr> \<and>
   parseAiOutput demo_engine (js ''{\"title\": %%BEGINCODE%%'') =
     Inr \<lparr>gameData = None, gameScript = None,
          error = Some (js ''JSON Parsing Error: Unexpected token'')\<rparr> \<and>
   parseAiOutput demo_engine (js ''{\"title\": \"T\"}%%BEGINCODE%%var x;'') =
     Inr \<lparr>gameData = None, gameScript = None, error = Some missing_fields\<rparr> \<and>
   (\<exists>st'. handleFileSelected demo_engine (js ''{\"title\": \"T\"}%%BEGINCODE%%var x;'')
             initial_state = Inr st') \<and>
   handleGenerate demo_engine (js ''{\"title\": %%BEGINCODE%%'') initial_state =
     \<lparr>ui_error = Some (js ''JSON Parsing Error: Unexpected token'' @ [0x0A, 0x0A] @
                       js ''Raw AI Output:'' @ [0x0A] @ js ''{\"title\": %%BEGINCODE%%''),
      ui_gameData = None, ui_gameScript = None, apiKeySelected = True\<rparr> \<and>
   handleFileSelected demo_engine (js ''{\"title\": %%BEGINCODE%%'') initial_state =
     Inr \<lparr>ui_error = Some (js ''Import Error: JSON Parsing Error: Unexpected token''),
          ui_gameData = None, ui_gameScript = None, apiKeySelected = True\<rparr>"
proof -
  let ?plain = "js ''Sure, one moment.''"
  let ?raw = "js ''{\"title\": %%BEGINCODE%%''"
  let ?short = "js ''{\"title\": \"T\"}%%BEGINCODE%%var x;''"
  let ?v = "JObj [(js ''title'', JStr (js ''T''))]"
  let ?e = "js ''JSON Parsing Error: '' @ js ''Unexpected token''"
  let ?r = "\<lparr>gameData = None, gameScript = None, error = Some ?e\<rparr>"
  have 1: "\<exists>c\<in>set ?plain. \<not> is_space c" by code_simp
  have 2: "indexOf ?plain codeSeparator = None" by code_simp
  have 3: "indexOf ?raw codeSeparator = Some 10" by code_simp
  have 4: "JSON_parse (cleanedJsonString (take 10 ?raw)) = None" by code_simp
  have 5: "syntax_error_message demo_engine (cleanedJsonString (take 10 ?raw)) =
      js ''Unexpected token''"
    by (simp add: demo_engine_def)
  have 6: "indexOf ?short codeSeparator = Some 14" by code_simp
  have 7: "JSON_parse (cleanedJsonString (take 14 ?short)) = Some ?v" by code_simp
  have 8: "\<not> has_required_fields ?v" by code_simp
  have 9: "rejection_probe demo_engine ?raw = None" by code_simp
  have a: "parseAiOutput demo_engine ?plain =
      Inr \<lparr>gameData = None, gameScript = None, error = Some separator_not_found\<rparr>"
    using parse_error_shown [of ?plain demo_engine] 1 2
    by (simp only: indexOf_None_iff) blast
  have b: "parseAiOutput demo_engine ?raw = Inr ?r"
    using parse_error_shown [of ?raw demo_engine 10] 3 4 by (simp add: 5)
  have c: "parseAiOutput demo_engine ?short =
      Inr \<lparr>gameData = None, gameScript = None, error = Some missing_fields\<rparr>"
    using parse_error_shown [of ?short demo_engine 14 ?v] 6 7 8 by simp
  have "\<forall>k. indexOf ?short codeSeparator = Some k \<longrightarrow>
          JSON_parse (cleanedJsonString (take k ?short)) \<noteq> Some JNull"
    by (simp add: 6 7)
  with parse_error_shown [of ?short demo_engine 14 ?v initial_state]
  have d: "\<exists>st'. handleFileSelected demo_engine ?short initial_state = Inr st'"
    by blast
  have e: "handleGenerate demo_engine ?raw initial_state =
        (cleared initial_state)\<lparr>ui_error :=
           Some (?e @ [0x0A, 0x0A] @ js ''Raw AI Output:'' @ [0x0A] @ ?raw)\<rparr> \<and>
      handleFileSelected demo_engine ?raw initial_state =
        Inr ((cleared initial_state)\<lparr>ui_error := Some (js ''Import Error: '' @ ?e)\<rparr>)"
    using parse_error_shown [of ?raw demo_engine 10 JNull initial_state ?r ?e] b 9
    by simp
  from a b c d e show ?thesis
    by (simp add: cleared_def initial_state_def js_def)
qed

theorem import_error_without_raw_text:
  "handleFileSelected demo_engine (js ''hello'') initial_state =
     Inr \<lparr>ui_error = Some (js ''Import Error: '' @ separator_not_found),
          ui_gameData = None, ui_gameScript = None, apiKeySelected = True\<rparr> \<and>
   indexOf (js ''Import Error: '' @ separator_not_found) (js ''hello'') = None"
  by code_simp

text \<open>
  The input left out above: a preamble that parses to \<open>null\<close>. The validation reads
  a property of it outside the \<open>try\<close> block; the generation flow reports the fault
  as an API error, the import callback lets it escape.
\<close>

lemma null_preamble_throws:
  "parseAiOutput E (js ''null%%BEGINCODE%%var x;'') = Inl TypeError"
  "handleFileSelected E (js ''null%%BEGINCODE%%var x;'') st = Inl TypeError"
  "ui_error (handleGenerate demo_engine (js ''null%%BEGINCODE%%var x;'') initial_state) =
     Some (js ''API Error: Cannot read properties of null'')"
  by code_simp+

section \<open>The label table\<close>

text \<open>
  C8: a labels string that splits on commas into fewer than seven entries gives the
  built-in default table, whatever the entries are.
\<close>

theorem translationsObject_few_entries:
  assumes "length (split (labels d) (js '','')) < 7"
  shows "translationsObject (Some d) = default_translations"
  using assms
  by (simp add: translationsObject_def label_pairs_def label_keys_def)

theorem translationsObject_few_entries_witness:
  "translationsObject
     (Some \<lparr>title = js ''T'', description = js ''D'', target_lang = js ''es'',
            comf_language = js ''en'', labels = js ''Language/Idioma, Play/Jugar, Settings'',
            how_to_play = []\<rparr>) = default_translations"
  by (rule translationsObject_few_entries) code_simp

section \<open>Idea offers\<close>

lemma split_from_not_Nil: "split_from sep acc s \<noteq> []"
  by (induction sep acc s rule: split_from.induct) auto

lemma render_parts_snoc:
  "parts \<noteq> [] \<Longrightarrow>
   render_parts parts = map (render_part False) (butlast parts) @ [render_part True (last parts)]"
  by (induction parts rule: render_parts.induct) auto

lemma offer_render_part_True: "offer (render_part True part) = None"
  by (simp add: render_part_def)

lemma offer_render_part_False:
  "offer (render_part False part) = (if ideaText part = [] then None else Some (ideaText part))"
  by (simp add: render_part_def)

text \<open>
  C10: every part but the last is rendered, with an offer exactly when its idea text
  (the trimmed part without a leading bullet or ordinal) is not empty, the offer being
  that idea text; the last part is rendered without an offer, or not at all when it is
  blank. The example body gives one offer, \<open>Try this:\<close>, and the rendered rest.
\<close>

theorem idea_offers:
  "(body \<noteq> [] \<longrightarrow>
      render_body body =
        map (\<lambda>part. Some (Rendered part (if ideaText part = [] then None else Some (ideaText part))))
          (butlast (split body ideaMarker)) @
        [if trim (last (split body ideaMarker)) = [] then None
         else Some (Rendered (last (split body ideaMarker)) None)]) \<and>
   offers body = filter (\<lambda>i. i \<noteq> []) (map ideaText (butlast (split body ideaMarker))) \<and>
   render_body (js ''Try this: &&IDEA&&'' @ [0x0A] @ js ''More text.'') =
     [Some (Rendered (js ''Try this: '') (Some (js ''Try this:''))),
      Some (Rendered ([0x0A] @ js ''More text.'') None)] \<and>
   offers (js ''Try this: &&IDEA&&'' @ [0x0A] @ js ''More text.'') = [js ''Try this:'']"
proof (intro conjI impI)
  let ?parts = "split body ideaMarker"
  have ne: "?parts \<noteq> []"
    by (simp add: split_def ideaMarker_def js_def split_from_not_Nil)
  have rp: "render_parts ?parts =
      map (render_part False) (butlast ?parts) @ [render_part True (last ?parts)]"
    by (rule render_parts_snoc [OF ne])
  {
    assume "body \<noteq> []"
    then show "render_body body =
        map (\<lambda>part. Some (Rendered part (if ideaText part = [] then None else Some (ideaText part))))
          (butlast ?parts) @
        [if trim (last ?parts) = [] then None else Some (Rendered (last ?parts) None)]"
      by (simp add: render_body_def rp render_part_def)
  }
  show "offers body = filter (\<lambda>i. i \<noteq> []) (map ideaText (butlast ?parts))"
  proof (cases "body = []")
    case True
    then show ?thesis
      by (simp add: offers_def render_body_def split_def ideaMarker_def js_def)
  next
    case False
    have "concat (map (\<lambda>r. case offer r of None \<Rightarrow> [] | Some i \<Rightarrow> [i])
            (map (render_part False) xs)) = filter (\<lambda>i. i \<noteq> []) (map ideaText xs)" for xs
      by (induction xs) (simp_all add: offer_render_part_False)
    with False show ?thesis
      by (simp add: offers_def render_body_def rp offer_render_part_True)
  qed
  show "render_body (js ''Try this: &&IDEA&&'' @ [0x0A] @ js ''More text.'') =
     [Some (Rendered (js ''Try this: '') (Some (js ''Try this:''))),
      Some (Rendered ([0x0A] @ js ''More text.'') None)]"
    by code_simp
  show "offers (js ''Try this: &&IDEA&&'' @ [0x0A] @ js ''More text.'') = [js ''Try this:'']"
    by code_simp
qed

theorem idea_offers_witness:
  "render_body (js ''1. Animal bingo &&IDEA&&- Verb race&&IDEA&&  '') =
     [Some (Rendered (js ''1. Animal bingo '') (Some (js ''Animal bingo''))),
      Some (Rendered (js ''- Verb race'') (Some (js ''Verb race''))),
      None]"
proof -
  let ?body = "js ''1. Animal bingo &&IDEA&&- Verb race&&IDEA&&  ''"
  have 1: "?body \<noteq> []" by (simp add: js_def)
  have 2: "split ?body ideaMarker = [js ''1. Animal bingo '', js ''- Verb race'', js ''  '']"
    by code_simp
  have 3: "ideaText (js ''1. Animal bingo '') = js ''Animal bingo''" by code_simp
  have 4: "ideaText (js ''- Verb race'') = js ''Verb race''" by code_simp
  have 5: "trim (js ''  '') = []" by code_simp
  have 6: "js ''Animal bingo'' \<noteq> []" "js ''Verb race'' \<noteq> []" by (simp_all add: js_def)
  from idea_offers [of ?body] 1 have "render_body ?body =
        map (\<lambda>part. Some (Rendered part (if ideaText part = [] then None else Some (ideaText part))))
          (butlast (split ?body ideaMarker)) @
        [if trim (last (split ?body ideaMarker)) = [] then None
         else Some (Rendered (last (split ?body ideaMarker)) None)]"
    by blast
  then show ?thesis by (simp add: 2 3 4 5 6)
qed

section \<open>Parameter values\<close>

lemma escape_quotes_Cons:
  "escape_quotes (c # s) = (if c = 0x22 then [0x5C, 0x22] else [c]) @ escape_quotes s"
  by (simp add: escape_quotes_def)

lemma lex_string_escape_quotes:
  assumes "\<forall>c\<in>set s. c \<noteq> 0x5C \<and> \<not> c < 0x20"
  shows "lex_string (escape_quotes s @ 0x22 # r) = Some (s, r)"
  using assms
proof (induction s)
  case Nil
  then show ?case by (simp add: escape_quotes_def)
next
  case (Cons c s)
  then have ih: "lex_string (escape_quotes s @ 0x22 # r) = Some (s, r)" by simp
  show ?case
  proof (cases "c = 0x22")
    case True
    then show ?thesis by (simp add: escape_quotes_Cons ih unescape_def)
  next
    case False
    with Cons.prems show ?thesis by (simp add: escape_quotes_Cons ih)
  qed
qed

lemma JSON_parse_string:
  assumes "lex_string (body @ [0x22]) = Some (s, [])"
  shows "JSON_parse ([0x22] @ body @ [0x22]) = Some (JStr s)"
  using assms
  by (simp add: JSON_parse_def is_json_ws_def emit_def begin_value_def)

lemma valueStr_single_quoted:
  "valueStr ([0x27] @ s @ [0x27]) = [0x22] @ escape_quotes s @ [0x22]"
  by (simp add: valueStr_def endsWith_def slice_1_m1_def)

text \<open>
  C9: the value of a parameter is what \<open>JSON.parse\<close> makes of the value text (after a
  text in single quotes has been put in double quotes, its double quotes escaped), and
  the value text itself, as a string, where that parse fails: there is a value for
  every text. A text in single quotes without backslash and control character gives
  the string between the quotes; \<open>'hello'\<close> gives \<open>hello\<close>.
\<close>

theorem parsedValue_total:
  "((\<exists>x. JSON_parse (valueStr v) = Some x \<and> parsedValue v = x) \<or>
    (JSON_parse (valueStr v) = None \<and> parsedValue v = JStr v)) \<and>
   ((\<forall>c\<in>set s. c \<noteq> 0x5C \<and> \<not> c < 0x20) \<longrightarrow>
      valueStr ([0x27] @ s @ [0x27]) = [0x22] @ escape_quotes s @ [0x22] \<and>
      parsedValue ([0x27] @ s @ [0x27]) = JStr s) \<and>
   parsedValue ([0x27] @ js ''hello'' @ [0x27]) = JStr (js ''hello'')"
proof (intro conjI impI)
  show "(\<exists>x. JSON_parse (valueStr v) = Some x \<and> parsedValue v = x) \<or>
        (JSON_parse (valueStr v) = None \<and> parsedValue v = JStr v)"
    by (cases "JSON_parse (valueStr v)") (simp_all add: parsedValue_def)
next
  show "valueStr ([0x27] @ s @ [0x27]) = [0x22] @ escape_quotes s @ [0x22]"
    by (rule valueStr_single_quoted)
next
  assume "\<forall>c\<in>set s. c \<noteq> 0x5C \<and> \<not> c < 0x20"
  then have "lex_string (escape_quotes s @ [0x22]) = Some (s, [])"
    by (rule lex_string_escape_quotes)
  then have "JSON_parse ([0x22] @ escape_quotes s @ [0x22]) = Some (JStr s)"
    by (rule JSON_parse_string)
  then show "parsedValue ([0x27] @ s @ [0x27]) = JStr s"
    by (simp only: parsedValue_def valueStr_single_quoted option.case)
next
  show "parsedValue ([0x27] @ js ''hello'' @ [0x27]) = JStr (js ''hello'')"
    by code_simp
qed

theorem parsedValue_total_witness:
  "parsedValue ([0x27] @ js ''say \"hi\"'' @ [0x27]) = JStr (js ''say \"hi\"'') \<and>
   valueStr ([0x27] @ js ''say \"hi\"'' @ [0x27]) =
     [0x22] @ js ''say '' @ [0x5C, 0x22] @ js ''hi'' @ [0x5C, 0x22, 0x22]"
proof -
  have "\<forall>c\<in>set (js ''say \"hi\"''). c \<noteq> 0x5C \<and> \<not> c < 0x20"
    by (simp add: js_def)
  with parsedValue_total [of "[]" "js ''say \"hi\"''"]
  have "valueStr ([0x27] @ js ''say \"hi\"'' @ [0x27]) =
          [0x22] @ escape_quotes (js ''say \"hi\"'') @ [0x22] \<and>
        parsedValue ([0x27] @ js ''say \"hi\"'' @ [0x27]) = JStr (js ''say \"hi\"'')"
    by blast
  then show ?thesis by (simp add: escape_quotes_def js_def)
qed

section \<open>Searching in concatenations\<close>

lemma startsWith_append_self: "startsWith (t @ b) t"
  by (simp add: startsWith_iff)

lemma startsWith_before_foreign:
  "startsWith (u @ c # v) t \<Longrightarrow> c \<notin> set t \<Longrightarrow> startsWith u t"
proof (induction u t rule: startsWith.induct)
  case (1 s)
  then show ?case by simp
next
  case (2 p ps)
  then show ?case by simp
next
  case (3 x xs p ps)
  then show ?case by simp
qed

lemma indexOf_Cons_None:
  "indexOf (c # s) t = None \<longleftrightarrow> \<not> startsWith (c # s) t \<and> indexOf s t = None"
  by simp

text \<open>
  A token that ends a text, after a code unit that does not occur in the token, is
  found right there when it does not occur earlier.
\<close>

lemma indexOf_after_foreign:
  assumes "indexOf a t = None" and "c \<notin> set t" and "t \<noteq> []"
  shows "indexOf (a @ c # t @ b) t = Some (Suc (length a))"
  using assms(1)
proof (induction a)
  case Nil
  from assms(2,3) have "\<not> startsWith (c # t @ b) t"
    by (cases t) auto
  moreover from assms(3) have "indexOf (t @ b) t = Some 0"
    by (cases t) (simp_all add: startsWith_append_self)
  ultimately show ?case by simp
next
  case (Cons x a)
  from Cons.prems have ns: "\<not> startsWith (x # a) t" and rest: "indexOf a t = None"
    by (simp_all split: if_splits)
  have "\<not> startsWith ((x # a) @ c # t @ b) t"
    using ns startsWith_before_foreign [OF _ assms(2)] by blast
  with Cons.IH [OF rest] show ?case by simp
qed

lemma indexOf_snoc_foreign:
  assumes "indexOf a t = None" and "c \<notin> set t" and "t \<noteq> []"
  shows "indexOf (a @ [c]) t = None"
  using assms(1)
proof (induction a)
  case Nil
  from assms(2,3) show ?case by (cases t) auto
next
  case (Cons x a)
  from Cons.prems have ns: "\<not> startsWith (x # a) t" and rest: "indexOf a t = None"
    by (simp_all split: if_splits)
  have "\<not> startsWith ((x # a) @ [c]) t"
    using ns startsWith_before_foreign [OF _ assms(2), of "x # a" "[]"] by blast
  with Cons.IH [OF rest] show ?case by simp
qed

lemma indexOf_single: "indexOf s [g] = None \<longleftrightarrow> g \<notin> set s"
  by (induction s) auto

section \<open>Replacing where nothing matches\<close>

lemma replace_first_no_match: "search m s = None \<Longrightarrow> replace_first m s = s"
  by (induction s) (auto split: option.splits)

lemma search_Cons_None:
  "search m (c # s) = None \<longleftrightarrow> m (c # s) = None \<and> search m s = None"
  by (auto split: option.splits)

lemma search_snoc:
  assumes "search m s = None" and "m [c] = None"
    and "\<And>u. u \<noteq> [] \<Longrightarrow> m u = None \<Longrightarrow> m (u @ [c]) = None"
  shows "search m (s @ [c]) = None"
  using assms(1)
proof (induction s)
  case Nil
  with assms(2) show ?case by simp
next
  case (Cons x s)
  from Cons.prems have "m (x # s) = None" and "search m s = None"
    by (auto split: option.splits)
  with Cons.IH assms(3) [of "x # s"] show ?case
    by simp
qed

lemma search_token:
  assumes "\<And>u. m u = None \<longleftrightarrow> \<not> startsWith u t" and "t \<noteq> []"
  shows "search m s = None \<longleftrightarrow> indexOf s t = None"
proof (induction s)
  case Nil
  with assms(2) show ?case by simp
next
  case (Cons c s)
  then show ?case using assms(1) [of "c # s"]
    by (simp only: search_Cons_None indexOf_Cons_None)
qed

section \<open>Trimming\<close>

lemma trim_blank_ends:
  assumes "\<forall>c\<in>set w1. is_space c" and "\<forall>c\<in>set w2. is_space c"
  shows "trim (w1 @ s @ w2) = trim s"
proof -
  have 1: "dropWhile is_space (w1 @ s @ w2) = dropWhile is_space (s @ w2)"
    using assms(1) by simp
  have 2: "dropWhile is_space (rev (dropWhile is_space (s @ w2))) =
           dropWhile is_space (rev (dropWhile is_space s))"
  proof (cases "\<forall>c\<in>set s. is_space c")
    case True
    then have "dropWhile is_space s = []" by simp
    moreover from True assms(2) have "dropWhile is_space (s @ w2) = []" by simp
    ultimately show ?thesis by (simp only:)
  next
    case False
    then have "dropWhile is_space (s @ w2) = dropWhile is_space s @ w2"
      by (auto simp: dropWhile_append)
    moreover have "dropWhile is_space (rev w2 @ y) = dropWhile is_space y" for y
      using assms(2) by (intro dropWhile_append2) simp
    ultimately show ?thesis by simp
  qed
  show ?thesis by (simp only: trim_def 1 2)
qed

lemma trim_id:
  assumes "s \<noteq> []" and "\<not> is_space (hd s)" and "\<not> is_space (last s)"
  shows "trim s = s"
proof -
  from assms(1,2) have "dropWhile is_space s = s" by (cases s) auto
  moreover from assms(1,3) have "dropWhile is_space (rev s) = rev s"
    by (cases "rev s") (auto simp: last_rev [symmetric] simp del: last_rev)
  ultimately show ?thesis by (simp add: trim_def)
qed

section \<open>Quoting a string and reading it back\<close>

lemma hex_digits_read_back: "list_all (\<lambda>n. hex_val (hex_digit n) = Some n) [0..<16]"
  by code_simp

lemma hex_val_hex_digit:
  assumes "n < 16"
  shows "hex_val (hex_digit n) = Some n"
proof -
  from assms have "n \<in> set [0..<16]" by simp
  with hex_digits_read_back show ?thesis
    by (simp only: list_all_iff)
qed

lemma unat_code_unit: "unat (c::code_unit) < 65536"
  using unsigned_less [of c, where 'a = nat] by simp

lemma four_hex_digits:
  fixes u :: nat
  shows "4096 * (u div 4096) + 256 * (u div 256 mod 16) + 16 * (u div 16 mod 16) + u mod 16 = u"
proof -
  have a: "u div 256 = u div 16 div 16" by (simp add: div_mult2_eq [symmetric])
  have b: "u div 4096 = u div 16 div 16 div 16" by (simp add: div_mult2_eq [symmetric])
  have 1: "u = 16 * (u div 16) + u mod 16" by simp
  have 2: "u div 16 = 16 * (u div 16 div 16) + u div 16 mod 16" by simp
  have 3: "u div 16 div 16 = 16 * (u div 16 div 16 div 16) + u div 16 div 16 mod 16" by simp
  show ?thesis unfolding a b using 1 2 3 by linarith
qed

lemma unhex4_unicode_escape:
  "unhex4 (hex_digit (unat c div 4096)) (hex_digit (unat c div 256 mod 16))
          (hex_digit (unat c div 16 mod 16)) (hex_digit (unat c mod 16)) = Some c"
proof -
  have "unat c < 65536" by (rule unat_code_unit)
  then have 1: "unat c div 4096 < 16" by simp
  show ?thesis
    by (simp add: unhex4_def hex_val_hex_digit 1 four_hex_digits)
qed

lemma lex_string_escape_u:
  "lex_string (0x5C # 0x75 # h1 # h2 # h3 # h4 # r) =
     (case unhex4 h1 h2 h3 h4 of
        None \<Rightarrow> None
      | Some u \<Rightarrow> map_option (\<lambda>(s, r'). (u # s, r')) (lex_string r))"
  by simp

lemma lex_string_unicode_escape:
  "lex_string (unicode_escape c @ r) = map_option (\<lambda>(s, r'). (c # s, r')) (lex_string r)"
  by (simp only: unicode_escape_def append_Cons append_Nil lex_string_escape_u
      unhex4_unicode_escape option.case)

lemma lex_string_escape_short:
  assumes "e \<noteq> 0x75" and "unescape e = Some u"
  shows "lex_string (0x5C # e # r) = map_option (\<lambda>(s, r'). (u # s, r')) (lex_string r)"
  using assms by simp

lemma lex_string_plain:
  assumes "c \<noteq> 0x22" and "c \<noteq> 0x5C" and "\<not> c < 0x20"
  shows "lex_string (c # r) = map_option (\<lambda>(s, r'). (c # s, r')) (lex_string r)"
  using assms by simp

lemma quote_unit_cases:
  "(\<exists>e. quote_unit c = [0x5C, e] \<and> e \<noteq> 0x75 \<and> unescape e = Some c) \<or>
   quote_unit c = unicode_escape c \<or>
   (quote_unit c = [c] \<and> c \<noteq> 0x22 \<and> c \<noteq> 0x5C \<and> \<not> c < 0x20)"
  by (simp add: quote_unit_def unescape_def)

lemma lex_string_quote_unit:
  "lex_string (quote_unit c @ r) = map_option (\<lambda>(s, r'). (c # s, r')) (lex_string r)"
  using quote_unit_cases [of c]
proof (elim disjE exE conjE)
  fix e
  assume q: "quote_unit c = [0x5C, e]" and e: "e \<noteq> 0x75" "unescape e = Some c"
  show ?thesis unfolding q append_Cons append_Nil by (rule lex_string_escape_short [OF e])
next
  assume "quote_unit c = unicode_escape c"
  then show ?thesis by (simp only: lex_string_unicode_escape)
next
  assume q: "quote_unit c = [c]" and p: "c \<noteq> 0x22" "c \<noteq> 0x5C" "\<not> c < 0x20"
  show ?thesis unfolding q append_Cons append_Nil by (rule lex_string_plain [OF p])
qed

lemma lex_string_surrogate:
  assumes "is_high_surrogate c \<or> is_low_surrogate c"
  shows "lex_string (c # r) = map_option (\<lambda>(s, r'). (c # s, r')) (lex_string r)"
proof (rule lex_string_plain)
  from assms have *: "0xD800 \<le> c"
    by (auto simp: is_high_surrogate_def is_low_surrogate_def word_le_nat_alt)
  then show "c \<noteq> 0x22" "c \<noteq> 0x5C" "\<not> c < 0x20"
    by (auto simp: word_le_nat_alt word_less_nat_alt)
qed

lemma lex_string_quote_units: "lex_string (quote_units s @ 0x22 # r) = Some (s, r)"
proof (induction s rule: quote_units.induct)
  case 1
  show ?case by simp
next
  case (2 c)
  have "lex_string (0x22 # r) = Some ([], r)" by simp
  then show ?case by (simp only: quote_units.simps lex_string_quote_unit) simp
next
  case (3 c d cs)
  show ?case
  proof (cases "is_high_surrogate c \<and> is_low_surrogate d")
    case True
    then have "quote_units (c # d # cs) = c # d # quote_units cs" by simp
    moreover from True have "lex_string (quote_units cs @ 0x22 # r) = Some (cs, r)"
      by (rule "3.IH"(1))
    ultimately show ?thesis using True
      by (simp add: lex_string_surrogate del: lex_string.simps)
  next
    case False
    then have "quote_units (c # d # cs) = quote_unit c @ quote_units (d # cs)"
      by (simp only: quote_units.simps if_False)
    moreover from False have "lex_string (quote_units (d # cs) @ 0x22 # r) = Some (d # cs, r)"
      by (rule "3.IH"(2))
    ultimately show ?thesis
      by (simp add: lex_string_quote_unit del: lex_string.simps quote_units.simps)
  qed
qed

lemma lex_JSON_quote: "tokenize (JSON_quote s @ r) = emit (TVal (JStr s)) (tokenize r)"
  by (simp add: JSON_quote_def is_json_ws_def lex_string_quote_units)

section \<open>The descriptor, written and read back\<close>

lemma join_Cons: "join sep (x # xs) = x @ concat (map (\<lambda>y. sep @ y) xs)"
  by (induction xs arbitrary: x) simp_all

lemma tokenize_elements:
  "tokenize (concat (map (\<lambda>h. 0x2C # 0x0A # 0x20 # 0x20 # 0x20 # 0x20 # JSON_quote h) hs) @ r) =
     map_option (\<lambda>ts. concat (map (\<lambda>h. [TComma, TVal (JStr h)]) hs) @ ts) (tokenize r)"
proof (induction hs)
  case Nil
  show ?case by (simp add: option.map_ident)
next
  case (Cons h hs)
  show ?case
    by (simp add: is_json_ws_def lex_JSON_quote Cons.IH emit_def option.map_comp comp_def)
qed

lemma tokenize_stringify_array:
  "tokenize (stringify_array hs @ r) =
     map_option (\<lambda>ts. TLBrack #
        (case hs of [] \<Rightarrow> []
         | h # hs' \<Rightarrow> TVal (JStr h) # concat (map (\<lambda>x. [TComma, TVal (JStr x)]) hs')) @
        TRBrack # ts) (tokenize r)"
proof (cases hs)
  case Nil
  then show ?thesis
    by (simp add: stringify_array_def js_def is_json_ws_def emit_def option.map_comp comp_def)
next
  case (Cons h hs')
  then show ?thesis
    by (simp add: stringify_array_def join_Cons comp_def js_def is_json_ws_def lex_JSON_quote
        tokenize_elements emit_def option.map_comp)
qed

lemma run_elements:
  "run (MAfter, FArr acc # st) (concat (map (\<lambda>h. [TComma, TVal (JStr h)]) hs) @ ts) =
   run (MAfter, FArr (acc @ map JStr hs) # st) ts"
  by (induction hs arbitrary: acc) (simp_all add: begin_value_def)

lemma run_array:
  "run (MValue, st)
     (TLBrack #
      (case hs of [] \<Rightarrow> []
       | h # hs' \<Rightarrow> TVal (JStr h) # concat (map (\<lambda>x. [TComma, TVal (JStr x)]) hs')) @
      TRBrack # ts) =
   (case deliver (JArr (map JStr hs)) st of None \<Rightarrow> None | Some cfg \<Rightarrow> run cfg ts)"
proof (cases hs)
  case Nil
  then show ?thesis by (simp add: begin_value_def)
next
  case (Cons h hs')
  then show ?thesis by (simp add: begin_value_def run_elements)
qed

lemma tokenize_stringify_GameData:
  "tokenize (stringify_GameData d) =
     Some ([TLBrace,
            TVal (JStr (js ''title'')), TColon, TVal (JStr (title d)), TComma,
            TVal (JStr (js ''description'')), TColon, TVal (JStr (description d)), TComma,
            TVal (JStr (js ''target_lang'')), TColon, TVal (JStr (target_lang d)), TComma,
            TVal (JStr (js ''comf_language'')), TColon, TVal (JStr (comf_language d)), TComma,
            TVal (JStr (js ''labels'')), TColon, TVal (JStr (labels d)), TComma,
            TVal (JStr (js ''how_to_play'')), TColon,
            TLBrack] @
           (case how_to_play d of [] \<Rightarrow> []
            | h # hs' \<Rightarrow> TVal (JStr h) # concat (map (\<lambda>x. [TComma, TVal (JStr x)]) hs')) @
           [TRBrack, TRBrace])"
  by (simp add: stringify_GameData_def member_line_def js_def is_json_ws_def lex_JSON_quote
      tokenize_stringify_array emit_def)

lemma run_append:
  "run cfg (a @ b) = (case run cfg a of None \<Rightarrow> None | Some cfg' \<Rightarrow> run cfg' b)"
  by (induction a arbitrary: cfg) (simp_all split: option.splits)

lemma JSON_parse_stringify_GameData:
  "JSON_parse (stringify_GameData d) = Some (json_of_GameData d)"
proof -
  let ?members = "[(js ''title'', JStr (title d)),
                   (js ''description'', JStr (description d)),
                   (js ''target_lang'', JStr (target_lang d)),
                   (js ''comf_language'', JStr (comf_language d)),
                   (js ''labels'', JStr (labels d))]"
  have 1: "run (MValue, [])
     [TLBrace,
      TVal (JStr (js ''title'')), TColon, TVal (JStr (title d)), TComma,
      TVal (JStr (js ''description'')), TColon, TVal (JStr (description d)), TComma,
      TVal (JStr (js ''target_lang'')), TColon, TVal (JStr (target_lang d)), TComma,
      TVal (JStr (js ''comf_language'')), TColon, TVal (JStr (comf_language d)), TComma,
      TVal (JStr (js ''labels'')), TColon, TVal (JStr (labels d)), TComma,
      TVal (JStr (js ''how_to_play'')), TColon] =
     Some (MValue, [FKey ?members (js ''how_to_play'')])"
    by (simp add: begin_value_def begin_key_def js_def)
  have 2: "run (MValue, [FKey ?members (js ''how_to_play'')])
     (TLBrack #
      (case how_to_play d of [] \<Rightarrow> []
       | h # hs' \<Rightarrow> TVal (JStr h) # concat (map (\<lambda>x. [TComma, TVal (JStr x)]) hs')) @
      TRBrack # [TRBrace]) = Some (MDone (json_of_GameData d), [])"
    by (simp only: run_array) (simp add: json_of_GameData_def js_def)
  have "run (MValue, [])
     ([TLBrace,
      TVal (JStr (js ''title'')), TColon, TVal (JStr (title d)), TComma,
      TVal (JStr (js ''description'')), TColon, TVal (JStr (description d)), TComma,
      TVal (JStr (js ''target_lang'')), TColon, TVal (JStr (target_lang d)), TComma,
      TVal (JStr (js ''comf_language'')), TColon, TVal (JStr (comf_language d)), TComma,
      TVal (JStr (js ''labels'')), TColon, TVal (JStr (labels d)), TComma,
      TVal (JStr (js ''how_to_play'')), TColon] @
      (TLBrack #
      (case how_to_play d of [] \<Rightarrow> []
       | h # hs' \<Rightarrow> TVal (JStr h) # concat (map (\<lambda>x. [TComma, TVal (JStr x)]) hs')) @
      TRBrack # [TRBrace])) = Some (MDone (json_of_GameData d), [])"
    by (simp only: run_append 1 2 option.case)
  then show ?thesis
    by (simp add: JSON_parse_def tokenize_stringify_GameData del: run.simps)
qed

section \<open>Where a token can occur in quoted text\<close>

lemma indexOf_Cons_foreign:
  assumes "c \<noteq> h" and "indexOf y (h # t) = None"
  shows "indexOf (c # y) (h # t) = None"
  using assms by simp

lemma indexOf_append_foreign:
  assumes "h \<notin> set x" and "indexOf y (h # t) = None"
  shows "indexOf (x @ y) (h # t) = None"
  using assms by (induction x) auto

lemma indexOf_separated:
  assumes "q \<notin> set t" and "indexOf x t = None" and "indexOf y t = None"
  shows "indexOf (x @ q # y) t = None"
  using assms(2)
proof (induction x)
  case Nil
  from assms(3) have "t \<noteq> []" by (cases y) (auto split: if_splits)
  with assms(1) have "\<not> startsWith (q # y) t" by (cases t) auto
  with assms(3) show ?case by simp
next
  case (Cons c x)
  from Cons.prems have ns: "\<not> startsWith (c # x) t" and rest: "indexOf x t = None"
    by (simp_all split: if_splits)
  have "\<not> startsWith ((c # x) @ q # y) t"
    using ns startsWith_before_foreign [OF _ assms(1)] by blast
  with Cons.IH [OF rest] show ?case by simp
qed

lemma quote_unit_head:
  "quote_unit c = [c] \<or> (\<exists>r. quote_unit c = 0x5C # r)"
  using quote_unit_cases [of c] by (auto simp: unicode_escape_def)

lemma startsWith_quote_units:
  assumes "0x5C \<notin> set t"
  shows "startsWith (quote_units s) t \<Longrightarrow> startsWith s t"
  using assms
proof (induction s arbitrary: t rule: quote_units.induct)
  case 1
  then show ?case by simp
next
  case (2 c)
  show ?case
  proof (cases t)
    case Nil
    then show ?thesis by simp
  next
    case (Cons p ps)
    with "2.prems" quote_unit_head [of c] show ?thesis by auto
  qed
next
  case (3 c d cs)
  show ?case
  proof (cases t)
    case Nil
    then show ?thesis by simp
  next
    case t: (Cons p ps)
    show ?thesis
    proof (cases "is_high_surrogate c \<and> is_low_surrogate d")
      case True
      then have q: "quote_units (c # d # cs) = c # d # quote_units cs" by simp
      show ?thesis
      proof (cases ps)
        case Nil
        with "3.prems" t q show ?thesis by simp
      next
        case (Cons p2 ps2)
        with "3.prems" t q have "c = p" "d = p2" "startsWith (quote_units cs) ps2" "0x5C \<notin> set ps2"
          by simp_all
        with "3.IH"(1) [OF True] t Cons show ?thesis by simp
      qed
    next
      case False
      then have q: "quote_units (c # d # cs) = quote_unit c @ quote_units (d # cs)"
        by (simp only: quote_units.simps if_False)
      from quote_unit_head [of c] "3.prems" t q have c: "quote_unit c = [c]" by auto
      with "3.prems" t q have "c = p" "startsWith (quote_units (d # cs)) ps" "0x5C \<notin> set ps"
        by simp_all
      with "3.IH"(2) [OF False] t show ?thesis by (simp del: quote_units.simps)
    qed
  qed
qed

lemma startsWith_before_quote_units:
  assumes "0x5C \<notin> set t"
  shows "startsWith (pre @ quote_units s) t \<Longrightarrow> startsWith (pre @ s) t"
  using assms
proof (induction pre arbitrary: t)
  case Nil
  then show ?case by (simp add: startsWith_quote_units)
next
  case (Cons c pre)
  then show ?case by (cases t) auto
qed

text \<open>The code units an escape sequence is made of.\<close>

lemma hex_digit_escape: "list_all (\<lambda>n. hex_digit n \<in> set (js ''0123456789abcdef'')) [0..<16]"
  by code_simp

lemma hex_digit_in:
  assumes "n < 16"
  shows "hex_digit n \<in> set (js ''0123456789abcdef'')"
proof -
  from assms have "n \<in> set [0..<16]" by simp
  with hex_digit_escape show ?thesis by (simp only: list_all_iff)
qed

lemma set_quote_unit:
  "quote_unit c = [c] \<or>
   set (quote_unit c) \<subseteq> set ([0x5C, 0x22] @ js ''bfnrtu0123456789abcdef'')"
proof -
  have "unat c div 4096 < 16" using unat_code_unit [of c] by simp
  then have "set (unicode_escape c) \<subseteq> set ([0x5C, 0x22] @ js ''bfnrtu0123456789abcdef'')"
    using hex_digit_in [of "unat c div 4096"] hex_digit_in [of "unat c div 256 mod 16"]
      hex_digit_in [of "unat c div 16 mod 16"] hex_digit_in [of "unat c mod 16"]
    by (simp add: unicode_escape_def js_def)
  then show ?thesis
    by (simp add: quote_unit_def js_def)
qed

lemma indexOf_quote_units:
  assumes "indexOf s (h # t) = None"
    and "0x5C \<notin> set t"
    and "h \<notin> set ([0x5C, 0x22] @ js ''bfnrtu0123456789abcdef'')"
  shows "indexOf (quote_units s) (h # t) = None"
  using assms(1)
proof (induction s rule: quote_units.induct)
  case 1
  show ?case by simp
next
  case (2 c)
  from set_quote_unit [of c] show ?case
  proof
    assume "quote_unit c = [c]"
    with "2.prems" show ?thesis by simp
  next
    assume "set (quote_unit c) \<subseteq> set ([0x5C, 0x22] @ js ''bfnrtu0123456789abcdef'')"
    with assms(3) have "h \<notin> set (quote_unit c)" by blast
    then have "indexOf (quote_unit c @ []) (h # t) = None"
      by (rule indexOf_append_foreign) simp
    then show ?thesis by simp
  qed
next
  case (3 c d cs)
  from assms(2,3) have bs: "0x5C \<notin> set (h # t)" by simp
  show ?case
  proof (cases "is_high_surrogate c \<and> is_low_surrogate d")
    case True
    then have q: "quote_units (c # d # cs) = c # d # quote_units cs" by simp
    from "3.prems" have n1: "\<not> startsWith (c # d # cs) (h # t)"
      and n2: "\<not> startsWith (d # cs) (h # t)" and r: "indexOf cs (h # t) = None"
      by (simp_all split: if_splits)
    have "\<not> startsWith ([c, d] @ quote_units cs) (h # t)"
      using n1 startsWith_before_quote_units [OF bs, of "[c, d]" cs] by auto
    moreover have "\<not> startsWith ([d] @ quote_units cs) (h # t)"
      using n2 startsWith_before_quote_units [OF bs, of "[d]" cs] by auto
    ultimately show ?thesis
      using "3.IH"(1) [OF True r] by (simp add: q del: quote_units.simps)
  next
    case False
    then have q: "quote_units (c # d # cs) = quote_unit c @ quote_units (d # cs)"
      by (simp only: quote_units.simps if_False)
    from "3.prems" have n1: "\<not> startsWith (c # d # cs) (h # t)"
      and r: "indexOf (d # cs) (h # t) = None"
      by (simp_all split: if_splits)
    have ih: "indexOf (quote_units (d # cs)) (h # t) = None"
      by (rule "3.IH"(2) [OF False r])
    from set_quote_unit [of c] show ?thesis
    proof
      assume c: "quote_unit c = [c]"
      have "\<not> startsWith ([c] @ quote_units (d # cs)) (h # t)"
        using n1 startsWith_before_quote_units [OF bs, of "[c]" "d # cs"] by auto
      with ih show ?thesis by (simp add: q c del: quote_units.simps)
    next
      assume "set (quote_unit c) \<subseteq> set ([0x5C, 0x22] @ js ''bfnrtu0123456789abcdef'')"
      with assms(3) have "h \<notin> set (quote_unit c)" by blast
      then show ?thesis unfolding q by (rule indexOf_append_foreign) (rule ih)
    qed
  qed
qed

lemma indexOf_JSON_quote:
  assumes "indexOf s (h # t) = None" and "indexOf y (h # t) = None"
    and "0x5C \<notin> set t" and "0x22 \<notin> set t"
    and "h \<notin> set ([0x5C, 0x22] @ js ''bfnrtu0123456789abcdef'')"
  shows "indexOf (JSON_quote s @ y) (h # t) = None"
proof -
  from assms(4,5) have q: "0x22 \<notin> set (h # t)" by simp
  have "indexOf (quote_units s @ 0x22 # y) (h # t) = None"
    by (rule indexOf_separated [OF q indexOf_quote_units [OF assms(1,3,5)] assms(2)])
  with q show ?thesis by (simp add: JSON_quote_def)
qed

lemma transparent_Nil: "transparent tok []"
  by (simp add: transparent_def)

lemma transparent_append:
  "transparent tok x \<Longrightarrow> transparent tok y \<Longrightarrow> transparent tok (x @ y)"
  by (simp add: transparent_def)

lemma transparent_literal: "h \<notin> set x \<Longrightarrow> transparent (h # t) x"
  by (simp add: transparent_def indexOf_append_foreign)

lemma transparent_JSON_quote:
  assumes "indexOf s (h # t) = None"
    and "0x5C \<notin> set t" and "0x22 \<notin> set t"
    and "h \<notin> set ([0x5C, 0x22] @ js ''bfnrtu0123456789abcdef'')"
  shows "transparent (h # t) (JSON_quote s)"
  using assms by (simp only: transparent_def) (blast intro: indexOf_JSON_quote)

lemma transparent_join:
  assumes "transparent tok sep" and "\<forall>x\<in>set xs. transparent tok x"
  shows "transparent tok (join sep xs)"
  using assms
proof (induction sep xs rule: join.induct)
  case (1 sep)
  show ?case by (simp add: transparent_Nil)
next
  case (2 sep x)
  then show ?case by simp
next
  case (3 sep x y ys)
  then have "transparent tok sep" "transparent tok x" "transparent tok (join sep (y # ys))"
    by simp_all
  then have "transparent tok (x @ sep @ join sep (y # ys))"
    by (intro transparent_append)
  then show ?case by simp
qed

lemma transparent_indexOf: "transparent tok x \<Longrightarrow> tok \<noteq> [] \<Longrightarrow> indexOf x tok = None"
  using transparent_def [of tok x] by (auto dest!: spec [of _ "[]"])

lemma transparent_stringify_GameData:
  assumes "\<forall>f\<in>set (members d). indexOf f (h # t) = None"
    and "0x5C \<notin> set t" and "0x22 \<notin> set t"
    and "h \<notin> set ([0x5C, 0x22, 0x0A] @ js ''{}[]:, _0123456789abcdefghijklmnopqrstuvwxyz'')"
  shows "transparent (h # t) (stringify_GameData d)"
proof -
  let ?S = "set ([0x5C, 0x22, 0x0A] @ js ''{}[]:, _0123456789abcdefghijklmnopqrstuvwxyz'')"
  have lit: "transparent (h # t) x" if "set x \<subseteq> ?S" for x
    using that assms(4) by (intro transparent_literal) blast
  have "set ([0x5C, 0x22] @ js ''bfnrtu0123456789abcdef'') \<subseteq> ?S"
    by (simp add: js_def)
  with assms(4) have esc: "h \<notin> set ([0x5C, 0x22] @ js ''bfnrtu0123456789abcdef'')"
    by blast
  have quoted: "transparent (h # t) (JSON_quote f)" if "indexOf f (h # t) = None" for f
    by (rule transparent_JSON_quote [OF that assms(2,3) esc])
  have key: "transparent (h # t) (JSON_quote x)" if "set x \<subseteq> ?S" for x
    by (rule quoted) (rule transparent_indexOf [OF lit [OF that]], simp)
  have line: "transparent (h # t) (member_line k v)"
    if "set (js k) \<subseteq> ?S" and "transparent (h # t) v" for k v
    unfolding member_line_def
    by (intro transparent_append lit key that) (simp_all add: js_def)
  have arr: "transparent (h # t) (stringify_array (how_to_play d))"
  proof (cases "how_to_play d = []")
    case True
    then show ?thesis by (simp add: stringify_array_def lit js_def)
  next
    case False
    have "transparent (h # t) (js ''    '' @ JSON_quote x)" if "x \<in> set (how_to_play d)" for x
    proof (rule transparent_append)
      show "transparent (h # t) (js ''    '')" by (rule lit) (simp add: js_def)
      from that assms(1) have "indexOf x (h # t) = None" by (simp add: members_def)
      then show "transparent (h # t) (JSON_quote x)" by (rule quoted)
    qed
    then have "\<forall>x\<in>set (map (\<lambda>x. js ''    '' @ JSON_quote x) (how_to_play d)). transparent (h # t) x"
      by simp
    then have j: "transparent (h # t)
        (join (js '','' @ [0x0A]) (map (\<lambda>x. js ''    '' @ JSON_quote x) (how_to_play d)))"
      by (intro transparent_join lit) (simp_all add: js_def)
    have "transparent (h # t)
        (js ''['' @ [0x0A] @
         join (js '','' @ [0x0A]) (map (\<lambda>x. js ''    '' @ JSON_quote x) (how_to_play d)) @
         [0x0A] @ js ''  ]'')"
      by (rule transparent_append [OF lit transparent_append [OF lit
            transparent_append [OF j transparent_append [OF lit lit]]]])
        (simp_all add: js_def)
    with False show ?thesis by (simp only: stringify_array_def if_False)
  qed
  from assms(1) have f: "indexOf (title d) (h # t) = None" "indexOf (description d) (h # t) = None"
    "indexOf (target_lang d) (h # t) = None" "indexOf (comf_language d) (h # t) = None"
    "indexOf (labels d) (h # t) = None"
    by (simp_all add: members_def)
  have lines: "\<forall>x\<in>set
       [member_line ''title'' (JSON_quote (title d)),
        member_line ''description'' (JSON_quote (description d)),
        member_line ''target_lang'' (JSON_quote (target_lang d)),
        member_line ''comf_language'' (JSON_quote (comf_language d)),
        member_line ''labels'' (JSON_quote (labels d)),
        member_line ''how_to_play'' (stringify_array (how_to_play d))]. transparent (h # t) x"
    by (simp add: line quoted f arr js_def)
  have sep: "transparent (h # t) (js '','' @ [0x0A])" by (rule lit) (simp add: js_def)
  show ?thesis
    unfolding stringify_GameData_def
    by (rule transparent_append [OF lit transparent_append [OF lit
          transparent_append [OF transparent_join [OF sep lines] transparent_append [OF lit lit]]]])
      (simp_all add: js_def)
qed

lemma indexOf_stringify_GameData:
  assumes "\<forall>f\<in>set (members d). indexOf f (h # t) = None"
    and "0x5C \<notin> set t" and "0x22 \<notin> set t"
    and "h \<notin> set ([0x5C, 0x22, 0x0A] @ js ''{}[]:, _0123456789abcdefghijklmnopqrstuvwxyz'')"
  shows "indexOf (stringify_GameData d) (h # t) = None"
  by (rule transparent_indexOf [OF transparent_stringify_GameData [OF assms]]) simp

lemma stringify_GameData_without_markers:
  assumes "\<forall>f\<in>set (members d). indexOf f codeSeparator = None"
    and "\<forall>f\<in>set (members d). indexOf f (js ''```json'') = None"
  shows "indexOf (stringify_GameData d) codeSeparator = None"
    and "indexOf (stringify_GameData d) (js ''```json'') = None"
proof -
  have 1: "codeSeparator = 0x25 # js ''%BEGINCODE%%''" by (simp add: codeSeparator_def js_def)
  have 2: "js ''```json'' = 0x60 # js ''``json''" by (simp add: js_def)
  from assms(1) have a: "\<forall>f\<in>set (members d). indexOf f (0x25 # js ''%BEGINCODE%%'') = None"
    by (simp only: 1)
  from assms(2) have b: "\<forall>f\<in>set (members d). indexOf f (0x60 # js ''``json'') = None"
    by (simp only: 2)
  show "indexOf (stringify_GameData d) codeSeparator = None"
    unfolding 1 by (rule indexOf_stringify_GameData [OF a]) (simp_all add: js_def)
  show "indexOf (stringify_GameData d) (js ''```json'') = None"
    unfolding 2 by (rule indexOf_stringify_GameData [OF b]) (simp_all add: js_def)
qed

section \<open>Export, then import\<close>

lemma stringify_GameData_shape: "\<exists>m. stringify_GameData d = 0x7B # m @ [0x7D]"
  by (simp add: stringify_GameData_def js_def)

lemma search_append:
  assumes "\<And>u. m (u @ y) = None" and "search m y = None"
  shows "search m (x @ y) = None"
proof (induction x)
  case Nil
  from assms(2) show ?case by simp
next
  case (Cons a x)
  have "m ((a # x) @ y) = None" by (rule assms(1))
  with Cons.IH show ?case by simp
qed

lemma re_fence_close_after_brace: "re_fence_close (u @ [0x7D, 0x0A]) = None"
proof -
  have "last (butlast (u @ [0x7D, 0x0A])) = 0x7D" by (simp add: butlast_append)
  then have "u @ [0x7D, 0x0A] \<noteq> [0x60, 0x60, 0x60, 0x0A]" by auto
  moreover have "last (u @ [0x7D, 0x0A]) = 0x0A" by simp
  then have "u @ [0x7D, 0x0A] \<noteq> [0x60, 0x60, 0x60]" by auto
  ultimately show ?thesis by (simp add: re_fence_close_def js_def)
qed

lemma re_fence_open_None: "re_fence_open u = None \<longleftrightarrow> \<not> startsWith u (js ''```json'')"
  by (simp add: re_fence_open_def)

lemma cleanedJsonString_exported:
  assumes "indexOf (stringify_GameData d) (js ''```json'') = None"
  shows "cleanedJsonString (stringify_GameData d @ [0x0A]) = stringify_GameData d"
proof -
  let ?J = "stringify_GameData d"
  obtain m where J: "?J = 0x7B # m @ [0x7D]" using stringify_GameData_shape by blast
  have "indexOf (?J @ [0x0A]) (js ''```json'') = None"
    by (rule indexOf_snoc_foreign [OF assms]) (simp_all add: js_def)
  then have "search re_fence_open (?J @ [0x0A]) = None"
    using search_token [of re_fence_open "js ''```json''" "?J @ [0x0A]"]
    by (simp add: re_fence_open_None js_def)
  then have 1: "replace_first re_fence_open (?J @ [0x0A]) = ?J @ [0x0A]"
    by (rule replace_first_no_match)
  have "search re_fence_close ((0x7B # m) @ [0x7D, 0x0A]) = None"
    by (rule search_append) (simp_all add: re_fence_close_after_brace, simp add: re_fence_close_def js_def)
  then have "search re_fence_close (?J @ [0x0A]) = None" by (simp add: J)
  then have 2: "replace_first re_fence_close (?J @ [0x0A]) = ?J @ [0x0A]"
    by (rule replace_first_no_match)
  have "trim ([] @ ?J @ [0x0A]) = trim ?J"
    by (rule trim_blank_ends) (simp_all add: is_space_def)
  moreover have "trim ?J = ?J"
    by (rule trim_id) (simp_all add: J is_space_def)
  ultimately show ?thesis by (simp add: cleanedJsonString_def 1 2)
qed

lemma startsWith_ci_length: "startsWith_ci u p \<Longrightarrow> length p \<le> length u"
  by (induction u p rule: startsWith_ci.induct) simp_all

lemma startsWith_ci_before_foreign:
  "startsWith_ci (u @ c # v) p \<Longrightarrow> \<forall>q\<in>set p. canonicalize c \<noteq> canonicalize q \<Longrightarrow>
   startsWith_ci u p"
  by (induction u p rule: startsWith_ci.induct) simp_all

lemma re_script_open_snoc:
  assumes "re_script_open u = None"
  shows "re_script_open (u @ [0x0A]) = None"
proof (cases "startsWith_ci u (js ''<script'')")
  case True
  then have "7 \<le> length u" using startsWith_ci_length [of u "js ''<script''"]
    by (simp add: js_def)
  then have d: "drop 7 (u @ [0x0A]) = drop 7 u @ [0x0A]" by simp
  from True assms have "indexOf (drop 7 u) (js ''>'') = None"
    by (simp add: re_script_open_def split: option.splits)
  then have "indexOf (drop 7 u @ [0x0A]) (js ''>'') = None"
    by (simp add: js_def indexOf_single)
  then show ?thesis unfolding re_script_open_def d by simp
next
  case False
  have "\<not> startsWith_ci (u @ [0x0A]) (js ''<script'')"
  proof
    assume "startsWith_ci (u @ [0x0A]) (js ''<script'')"
    then have "startsWith_ci u (js ''<script'')"
      by (rule startsWith_ci_before_foreign) (simp add: js_def canonicalize_def)
    with False show False by simp
  qed
  then show ?thesis by (simp add: re_script_open_def)
qed

lemma re_script_close_snoc:
  assumes "re_script_close u = None"
  shows "re_script_close (u @ [0x0A]) = None"
proof -
  from assms have n: "\<not> startsWith_ci u (js ''</script>'')"
    by (simp add: re_script_close_def split: if_splits)
  have "\<not> startsWith_ci (u @ [0x0A]) (js ''</script>'')"
  proof
    assume "startsWith_ci (u @ [0x0A]) (js ''</script>'')"
    then have "startsWith_ci u (js ''</script>'')"
      by (rule startsWith_ci_before_foreign) (simp add: js_def canonicalize_def)
    with n show False by simp
  qed
  then show ?thesis by (simp add: re_script_close_def)
qed

lemma search_between_line_feeds:
  assumes "search m s = None" and "m [0x0A] = None"
    and "\<And>u. m (0x0A # u) = None"
    and "\<And>u. m u = None \<Longrightarrow> m (u @ [0x0A]) = None"
  shows "search m (0x0A # s @ [0x0A]) = None"
proof -
  have "search m (s @ [0x0A]) = None"
    by (rule search_snoc [OF assms(1,2)]) (rule assms(4))
  with assms(3) [of "s @ [0x0A]"] show ?thesis by simp
qed

lemma script_between_line_feeds:
  assumes "search re_script_open s = None" and "search re_script_close s = None"
  shows "replace_first re_script_close (replace_first re_script_open (0x0A # s @ [0x0A])) =
         0x0A # s @ [0x0A]"
proof -
  have "search re_script_open (0x0A # s @ [0x0A]) = None"
    by (rule search_between_line_feeds [OF assms(1)])
      (simp_all add: re_script_open_snoc, simp_all add: re_script_open_def js_def canonicalize_def)
  moreover have "search re_script_close (0x0A # s @ [0x0A]) = None"
    by (rule search_between_line_feeds [OF assms(2)])
      (simp_all add: re_script_close_snoc, simp_all add: re_script_close_def js_def canonicalize_def)
  ultimately show ?thesis by (simp only: replace_first_no_match)
qed

lemma has_required_fields_json_of_GameData:
  assumes "title d \<noteq> []" and "description d \<noteq> []"
  shows "has_required_fields (json_of_GameData d)"
  using assms
  by (simp add: has_required_fields_def json_of_GameData_def truthy_prop_def isArray_def js_def)

lemma scriptString_exported:
  assumes "indexOf script endSeparator = None"
    and "search re_script_open script = None" and "search re_script_close script = None"
  shows "scriptString (a @ codeSeparator @ (0x0A # script @ 0x0A # endSeparator)) (length a) =
         trim script"
proof -
  have "indexOf (0x0A # script) endSeparator = None"
    using assms(1) by (simp add: endSeparator_def js_def)
  then have "indexOf ((0x0A # script) @ 0x0A # endSeparator @ []) endSeparator =
             Some (Suc (length (0x0A # script)))"
    by (rule indexOf_after_foreign) (simp_all add: endSeparator_def js_def)
  then have 1: "indexOf (0x0A # script @ 0x0A # endSeparator) endSeparator =
                Some (Suc (Suc (length script)))"
    by simp
  have 2: "trim (0x0A # script @ [0x0A]) = trim script"
    using trim_blank_ends [of "[0x0A]" "[0x0A]" script] by (simp add: is_space_def)
  have 3: "drop (length a + length codeSeparator)
             (a @ codeSeparator @ (0x0A # script @ 0x0A # endSeparator)) =
           0x0A # script @ 0x0A # endSeparator"
    by simp
  have 4: "take (Suc (Suc (length script))) (0x0A # script @ 0x0A # endSeparator) =
           0x0A # script @ [0x0A]"
    by simp
  show ?thesis
    by (simp only: scriptString_def Let_def 3 1 option.case 4
        script_between_line_feeds [OF assms(2,3)] 2)
qed

lemma export_import_text:
  assumes "title d \<noteq> []" and "description d \<noteq> []" and "script \<noteq> []"
    and "indexOf (stringify_GameData d) codeSeparator = None"
    and "indexOf (stringify_GameData d) (js ''```json'') = None"
    and "indexOf script endSeparator = None"
    and "search re_script_open script = None"
    and "search re_script_close script = None"
  shows "handleExport (Some d) (Some script) = Some (fileContent d script) \<and>
         parseAiOutput E (fileContent d script) =
           Inr \<lparr>gameData = Some (json_of_GameData d),
                gameScript = Some (trim script),
                error = None\<rparr>"
proof
  from assms(3) show "handleExport (Some d) (Some script) = Some (fileContent d script)"
    by (simp add: handleExport_def)
next
  let ?J = "stringify_GameData d"
  let ?rest = "0x0A # script @ 0x0A # endSeparator"
  have F: "fileContent d script = (?J @ [0x0A]) @ codeSeparator @ ?rest"
    by (simp add: fileContent_def codeSeparator_def endSeparator_def)
  have "indexOf (?J @ 0x0A # codeSeparator @ ?rest) codeSeparator = Some (Suc (length ?J))"
    by (rule indexOf_after_foreign [OF assms(4)]) (simp_all add: codeSeparator_def js_def)
  then have i: "indexOf (fileContent d script) codeSeparator = Some (length (?J @ [0x0A]))"
    by (simp add: F)
  have nb: "trim (fileContent d script) \<noteq> []"
    by (rule indexOf_codeSeparator_not_blank [OF i])
  have pre: "take (length (?J @ [0x0A])) (fileContent d script) = ?J @ [0x0A]"
    unfolding F by simp
  have p: "JSON_parse (cleanedJsonString (?J @ [0x0A])) = Some (json_of_GameData d)"
    by (simp only: cleanedJsonString_exported [OF assms(5)] JSON_parse_stringify_GameData)
  have v: "has_required_fields (json_of_GameData d)"
    by (rule has_required_fields_json_of_GameData [OF assms(1,2)])
  have n: "json_of_GameData d \<noteq> JNull" by (simp add: json_of_GameData_def)
  have s: "scriptString (fileContent d script) (length (?J @ [0x0A])) = trim script"
    unfolding F by (rule scriptString_exported [OF assms(6,7,8)])
  show "parseAiOutput E (fileContent d script) =
          Inr \<lparr>gameData = Some (json_of_GameData d), gameScript = Some (trim script),
               error = None\<rparr>"
    using nb v n by (simp add: parseAiOutput_def i pre p s del: length_append)
qed

text \<open>
  C3 (as the code has it): a descriptor of the declared type with a non-empty title and
  description and a non-empty script are exported and parsed back to the same
  descriptor and to the trimmed script, provided that no string of the descriptor
  contains the begin marker or \<^verbatim>\<open>```json\<close>, and that the script contains neither the
  end marker nor an opening or a closing script tag.
\<close>

theorem export_import_roundtrip:
  assumes "title d \<noteq> []" and "description d \<noteq> []" and "script \<noteq> []"
    and "\<forall>f\<in>set (members d). indexOf f codeSeparator = None"
    and "\<forall>f\<in>set (members d). indexOf f (js ''```json'') = None"
    and "indexOf script endSeparator = None"
    and "search re_script_open script = None"
    and "search re_script_close script = None"
  shows "handleExport (Some d) (Some script) = Some (fileContent d script) \<and>
         parseAiOutput E (fileContent d script) =
           Inr \<lparr>gameData = Some (json_of_GameData d),
                gameScript = Some (trim script),
                error = None\<rparr>"
  by (rule export_import_text
      [OF assms(1,2,3) stringify_GameData_without_markers [OF assms(4,5)] assms(6,7,8)])

theorem export_import_roundtrip_witness:
  "parseAiOutput demo_engine
     (fileContent
        \<lparr>title = js ''Match Game'', description = js ''Match pairs.'', target_lang = js ''es'',
         comf_language = js ''en'', labels = js ''Language/Idioma, Play/Jugar'',
         how_to_play = [js ''Click a card'', js ''Find its \"pair\"'']\<rparr>
        (js ''  var x = 1;'' @ [0x0A])) =
   Inr \<lparr>gameData =
          Some (json_of_GameData
            \<lparr>title = js ''Match Game'', description = js ''Match pairs.'', target_lang = js ''es'',
             comf_language = js ''en'', labels = js ''Language/Idioma, Play/Jugar'',
             how_to_play = [js ''Click a card'', js ''Find its \"pair\"'']\<rparr>),
        gameScript = Some (js ''var x = 1;''),
        error = None\<rparr>"
proof -
  let ?d = "\<lparr>title = js ''Match Game'', description = js ''Match pairs.'', target_lang = js ''es'',
         comf_language = js ''en'', labels = js ''Language/Idioma, Play/Jugar'',
         how_to_play = [js ''Click a card'', js ''Find its \"pair\"'']\<rparr>"
  let ?s = "js ''  var x = 1;'' @ [0x0A]"
  have 1: "title ?d \<noteq> []" by (simp add: js_def)
  have 2: "description ?d \<noteq> []" by (simp add: js_def)
  have 3: "?s \<noteq> []" by (simp add: js_def)
  have 4: "\<forall>f\<in>set (members ?d). indexOf f codeSeparator = None" by code_simp
  have 5: "\<forall>f\<in>set (members ?d). indexOf f (js ''```json'') = None" by code_simp
  have 6: "indexOf ?s endSeparator = None" by code_simp
  have 7: "search re_script_open ?s = None" by code_simp
  have 8: "search re_script_close ?s = None" by code_simp
  have 9: "trim ?s = js ''var x = 1;''" by code_simp
  from export_import_roundtrip [OF 1 2 3 4 5 6 7 8, of demo_engine]
  show ?thesis by (simp only: 9)
qed

theorem export_import_script_tag_lost:
  "handleExport
     (Some \<lparr>title = js ''Match Game'', description = js ''Match pairs.'', target_lang = js ''es'',
            comf_language = js ''en'', labels = js ''Language/Idioma, Play/Jugar'',
            how_to_play = [js ''Click a card'']\<rparr>)
     (Some (js ''var s = \"</script>\";'')) =
   Some (fileContent
     \<lparr>title = js ''Match Game'', description = js ''Match pairs.'', target_lang = js ''es'',
      comf_language = js ''en'', labels = js ''Language/Idioma, Play/Jugar'',
      how_to_play = [js ''Click a card'']\<rparr>
     (js ''var s = \"</script>\";'')) \<and>
   parseAiOutput demo_engine
     (fileContent
        \<lparr>title = js ''Match Game'', description = js ''Match pairs.'', target_lang = js ''es'',
         comf_language = js ''en'', labels = js ''Language/Idioma, Play/Jugar'',
         how_to_play = [js ''Click a card'']\<rparr>
        (js ''var s = \"</script>\";'')) =
   Inr \<lparr>gameData =
          Some (json_of_GameData
            \<lparr>title = js ''Match Game'', description = js ''Match pairs.'', target_lang = js ''es'',
             comf_language = js ''en'', labels = js ''Language/Idioma, Play/Jugar'',
             how_to_play = [js ''Click a card'']\<rparr>),
        gameScript = Some (js ''var s = \"\";''),
        error = None\<rparr>"
  by code_simp

text \<open>
  Each proviso is needed: an end marker in the script cuts it short; a begin marker in
  a member of the descriptor cuts the preamble inside a string; a \<^verbatim>\<open>```json\<close> in a member
  is removed from it.
\<close>

lemma export_import_end_marker_in_script:
  "map_sum id gameScript
     (parseAiOutput demo_engine (fileContent sample_descriptor (js ''a();%%ENDCODE%%b();''))) =
   Inr (Some (js ''a();''))"
  by code_simp

lemma export_import_begin_marker_in_title:
  "map_sum id error
     (parseAiOutput demo_engine
        (fileContent (sample_descriptor\<lparr>title := js ''The %%BEGINCODE%% game''\<rparr>) (js ''a();''))) =
   Inr (Some (js ''JSON Parsing Error: Unexpected token''))"
  by code_simp

lemma export_import_fence_in_description:
  "map_sum id gameData
     (parseAiOutput demo_engine
        (fileContent (sample_descriptor\<lparr>description := js ''Write ```json blocks.''\<rparr>)
           (js ''a();''))) =
   Inr (Some (json_of_GameData (sample_descriptor\<lparr>description := js ''Write  blocks.''\<rparr>)))"
  by code_simp

end
